theory Spec2Isabelle
  imports Complex_Main "HOL-Library.State_Monad"
begin

section \<open>Procedural terrain: data model\<close>

text \<open>
  The development embeds the class \<open>Terrain\<close> (the variant with a central lane and two
  borders). JavaScript numbers are modelled by exact reals, the integer seed by \<open>int\<close>;
  \<open>null\<close> and \<open>undefined\<close> are explicit values. Everything the class hands to its
  rendering and physics collaborators (meshes, bodies, decorations, object pools, the
  ambient \<open>Math.random\<close>) lives in one opaque component \<open>world\<close> that the terrain code
  only ever transforms through an uninterpreted function; a call to a collaborator
  inside a \<open>try\<close> block of the segment builder may throw.
\<close>

datatype chunk = Hills | Plateau | Ramp | Gap | Washboard | Valley

text \<open>A height as JavaScript sees it: a number, \<open>null\<close> or \<open>undefined\<close>.\<close>

datatype jsval = Num real | Null | Undefined

text \<open>\<open>ToNumber\<close> on the values that reach arithmetic here: \<open>null\<close> counts as 0.\<close>

fun numOf :: "real option \<Rightarrow> real" where
  "numOf None = 0"
| "numOf (Some v) = v"

fun jsOf :: "real option \<Rightarrow> jsval" where
  "jsOf None = Null"
| "jsOf (Some v) = Num v"

text \<open>A sample point \<open>{x, y, height}\<close>; \<open>height = null\<close> marks a hole.\<close>

record sample =
  px :: real
  py :: "real option"
  height :: "real option"

text \<open>A stored segment; \<open>points = None\<close> stands for a missing \<open>points\<close> property.\<close>

record segment =
  startX :: real
  points :: "sample list option"
  chunkType :: chunk

record 'w terrain =
  seed :: int
  noiseOffsetX :: int
  terrainMeshes :: "segment list"
  world :: 'w

definition segmentWidth :: real where
  "segmentWidth = 40"

text \<open>The remainder operator \<open>%\<close> on integers: the sign follows the dividend.\<close>

definition jsmod :: "int \<Rightarrow> int \<Rightarrow> int" where
  "jsmod a b = sgn a * (\<bar>a\<bar> mod \<bar>b\<bar>)"

section \<open>Deterministic random numbers and chunk selection\<close>

definition seededRandom :: "'w terrain \<Rightarrow> real \<times> 'w terrain" where
  "seededRandom T =
     (let s = jsmod (seed T * 9301 + 49297) 233280
      in (real_of_int s / 233280, T\<lparr>seed := s\<rparr>))"

definition selectChunkType :: "real \<Rightarrow> 'w terrain \<Rightarrow> chunk \<times> 'w terrain" where
  "selectChunkType difficulty T =
     (let (rand, T') = seededRandom T
      in (if difficulty < 15 / 100 then
            (if rand < 7 / 10 then Hills else Plateau)
          else if difficulty < 3 / 10 then
            (if rand < 5 / 10 then Hills
             else if rand < 7 / 10 then Plateau
             else if rand < 9 / 10 then Ramp
             else Washboard)
          else if difficulty < 5 / 10 then
            (if rand < 3 / 10 then Hills
             else if rand < 5 / 10 then Ramp
             else if rand < 7 / 10 then Washboard
             else if rand < 9 / 10 then Valley
             else Gap)
          else if difficulty < 7 / 10 then
            (if rand < 2 / 10 then Hills
             else if rand < 4 / 10 then Plateau
             else if rand < 6 / 10 then Washboard
             else if rand < 8 / 10 then Valley
             else Gap)
          else
            (if rand < 15 / 100 then Hills
             else if rand < 35 / 100 then Ramp
             else if rand < 55 / 100 then Washboard
             else if rand < 75 / 100 then Valley
             else Gap),
          T'))"

section \<open>Interpolation and noise\<close>

definition cubicInterpolation :: "real \<Rightarrow> real" where
  "cubicInterpolation t = t * t * (3 - 2 * t)"

definition quinticInterpolation :: "real \<Rightarrow> real" where
  "quinticInterpolation t = t * t * t * (t * (t * 6 - 15) + 10)"

definition bezierInterpolation :: "real \<Rightarrow> real \<Rightarrow> real \<Rightarrow> real \<Rightarrow> real \<Rightarrow> real" where
  "bezierInterpolation t p0 p1 p2 p3 =
     (let oneMinusT = 1 - t
      in oneMinusT * oneMinusT * oneMinusT * p0 +
         3 * oneMinusT * oneMinusT * t * p1 +
         3 * oneMinusT * t * t * p2 +
         t * t * t * p3)"

datatype smoothness = Linear | Cubic | Quintic

definition smoothTransition :: "real \<Rightarrow> real \<Rightarrow> real \<Rightarrow> smoothness \<Rightarrow> real" where
  "smoothTransition t startHeight endHeight sm =
     (let factor = (case sm of Linear \<Rightarrow> t
                    | Cubic \<Rightarrow> cubicInterpolation t
                    | Quintic \<Rightarrow> quinticInterpolation t)
      in startHeight * (1 - factor) + endHeight * factor)"

text \<open>
  \<open>noise\<close> reads the field \<open>seed\<close>, the very field \<open>seededRandom\<close> overwrites.
  \<open>Math.floor(x) & 255\<close> is the floor taken modulo 256.
\<close>

definition noise :: "'w terrain \<Rightarrow> real \<Rightarrow> real" where
  "noise T x =
     (let X = \<lfloor>x\<rfloor> mod 256;
          xf = x - of_int \<lfloor>x\<rfloor>;
          fadeX = xf * xf * (3 - 2 * xf);
          offset = jsmod (seed T) 256;
          h1 = (X + offset) mod 256;
          h2 = (X + 1 + offset) mod 256;
          n1 = sin (of_int h1 * 37.1 + of_int (seed T) * 0.1) * 43758.5453;
          n2 = sin (of_int h2 * 37.1 + of_int (seed T) * 0.1) * 43758.5453;
          res1 = (n1 - of_int \<lfloor>n1\<rfloor>) * 2 - 1;
          res2 = (n2 - of_int \<lfloor>n2\<rfloor>) * 2 - 1
      in res1 + fadeX * (res2 - res1))"

text \<open>The octave loop of \<open>improvedNoise\<close>: returns \<open>total\<close> (here \<open>acc\<close>) and \<open>maxValue\<close>.\<close>

fun noiseOctaves ::
  "'w terrain \<Rightarrow> real \<Rightarrow> nat \<Rightarrow> real \<Rightarrow> real \<Rightarrow> real \<Rightarrow> real \<Rightarrow> real \<Rightarrow> real \<Rightarrow> real \<times> real" where
  "noiseOctaves T seedX 0 persistence lacunarity frequency amplitude acc maxValue =
     (acc, maxValue)"
| "noiseOctaves T seedX (Suc n) persistence lacunarity frequency amplitude acc maxValue =
     noiseOctaves T seedX n persistence lacunarity
       (frequency * lacunarity) (amplitude * persistence)
       (acc + noise T (seedX * frequency) * amplitude) (maxValue + amplitude)"

definition improvedNoise :: "'w terrain \<Rightarrow> real \<Rightarrow> real \<Rightarrow> nat \<Rightarrow> real \<Rightarrow> real \<Rightarrow> real" where
  "improvedNoise T x frequency octaves persistence lacunarity =
     (let seedX = x + of_int (noiseOffsetX T);
          (acc, maxValue) = noiseOctaves T seedX octaves persistence lacunarity frequency 1 0 0
      in acc / maxValue)"

section \<open>Height queries and the hills generator\<close>

definition covers :: "segment \<Rightarrow> real \<Rightarrow> bool" where
  "covers s x = (startX s \<le> x \<and> startX s + segmentWidth > x)"

text \<open>
  \<open>getTerrainHeightNear\<close> only looks at stored segments and answers \<open>undefined\<close>
  when it finds nothing.
\<close>

definition getTerrainHeightNear :: "'w terrain \<Rightarrow> real \<Rightarrow> jsval" where
  "getTerrainHeightNear T x =
     (case find (\<lambda>s. covers s x) (terrainMeshes T) of
        None \<Rightarrow> Undefined
      | Some s \<Rightarrow>
          (case points s of
             None \<Rightarrow> Undefined
           | Some ps \<Rightarrow>
               (let pointIndex = \<lfloor>((x - startX s) / segmentWidth) * real (length ps)\<rfloor>
                in if 0 \<le> pointIndex \<and> nat pointIndex < length ps
                   then jsOf (py (ps ! nat pointIndex))
                   else Undefined)))"

fun jsNum :: "jsval \<Rightarrow> real" where
  "jsNum (Num v) = v"
| "jsNum Null = 0"
| "jsNum Undefined = 0"

text \<open>
  The lookup inside a stored segment, the body of the loop of \<open>getTerrainHeightAt\<close>
  once a covering segment is found. For a covering segment the index is at most
  \<open>length ps - 1\<close>, so every array access below is in range.
\<close>

definition heightInSegment :: "segment \<Rightarrow> real \<Rightarrow> jsval" where
  "heightInSegment s x =
     (case points s of
        None \<Rightarrow> Num 0
      | Some ps \<Rightarrow>
          if length ps = 0 then Num 0
          else
            (let normalizedX = (x - startX s) / segmentWidth;
                 index = nat \<lfloor>normalizedX * (real (length ps) - 1)\<rfloor>
             in if index < length ps \<and> height (ps ! index) = None then Null
                else if index < length ps - 1 then
                  (let x1 = startX s + (real index / (real (length ps) - 1)) * segmentWidth;
                       x2 = startX s + ((real index + 1) / (real (length ps) - 1)) * segmentWidth;
                       y1 = numOf (py (ps ! index));
                       y2 = numOf (py (ps ! (index + 1)));
                       t = (x - x1) / (x2 - x1)
                   in Num (y1 * (1 - cubicInterpolation t) + y2 * cubicInterpolation t))
                else jsOf (py (ps ! index))))"

text \<open>
  \<open>generateHills\<close> consults \<open>getTerrainHeightAt\<close> near a border of its span, and
  \<open>getTerrainHeightAt\<close> falls back on \<open>generateHills\<close> over the span
  \<open>[x - 10, x + 10]\<close>, where no border is near: the recursion stops there.
\<close>

function generateHills :: "'w terrain \<Rightarrow> real \<Rightarrow> real \<Rightarrow> real \<Rightarrow> real \<Rightarrow> real"
  and getTerrainHeightAt :: "'w terrain \<Rightarrow> real \<Rightarrow> jsval" where
  "generateHills T x start endX difficulty =
     (let adjustedDifficulty = min (difficulty * 0.6) 0.5;
          maxAmplitude = 1.8;
          amplitude = min (1.2 + adjustedDifficulty * 1.3) maxAmplitude;
          baseNoise = improvedNoise T x 0.05 3 0.5 2.0;
          detailNoise = improvedNoise T x 0.2 2 0.3 2.5;
          rawHeight = baseNoise * amplitude + detailNoise * (amplitude * 0.3);
          previousHeight = getTerrainHeightNear T (x - 0.5);
          delta = rawHeight - jsNum previousHeight;
          maxHeightDelta = 0.15
      in if previousHeight \<noteq> Undefined \<and> \<bar>delta\<bar> > maxHeightDelta then
           (let t = min (\<bar>delta\<bar> / maxHeightDelta) 1;
                smoothFactor = quinticInterpolation (1 - t)
            in jsNum previousHeight + delta * smoothFactor)
         else if x - start < 1.0 then
           (case getTerrainHeightAt T (start - 0.1) of
              Num prevSegmentHeight \<Rightarrow>
                (let t = quinticInterpolation (x - start)
                 in prevSegmentHeight * (1 - t) + rawHeight * t)
            | _ \<Rightarrow> rawHeight)
         else if endX - x < 1.0 then
           (case getTerrainHeightAt T (endX + 0.1) of
              Num nextSegmentHeight \<Rightarrow>
                (let t = quinticInterpolation (endX - x)
                 in rawHeight * (1 - t) + nextSegmentHeight * t)
            | _ \<Rightarrow> rawHeight)
         else rawHeight)"
| "getTerrainHeightAt T x =
     (case find (\<lambda>s. covers s x) (terrainMeshes T) of
        Some s \<Rightarrow> heightInSegment s x
      | None \<Rightarrow> Num (generateHills T x (x - 10) (x + 10) 0.1))"
  by pat_completeness (simp_all only: sum.inject prod.inject sum.distinct)
termination
proof (relation "measure (\<lambda>a. case a of
                   Inl (T, x, start, endX, d) \<Rightarrow>
                     (if x - start < 1 \<or> endX - x < 1 then 2 else 0)
                 | Inr (T, x) \<Rightarrow> 1)", goal_cases)
  case 1
  show ?case by (rule wf_measure)
next
  case 2
  from 2(11) show ?case by simp
next
  case 3
  from 3(12) show ?case by simp
next
  case 4
  show ?case by simp
qed

declare generateHills.simps [simp del] getTerrainHeightAt.simps [simp del]

section \<open>The other shape generators\<close>

text \<open>\<open>a || b\<close> on a height: \<open>undefined\<close>, \<open>null\<close> and 0 are falsy.\<close>

definition jsOr :: "jsval \<Rightarrow> real \<Rightarrow> real" where
  "jsOr v alt = (case v of Num r \<Rightarrow> (if r \<noteq> 0 then r else alt) | _ \<Rightarrow> alt)"

definition generatePlateau :: "'w terrain \<Rightarrow> real \<Rightarrow> real \<Rightarrow> real \<Rightarrow> real \<Rightarrow> real" where
  "generatePlateau T x start endX difficulty =
     (let width = endX - start;
          baseHeight = sin (start * 0.03) * 4;
          distanceFromStart = x - start;
          distanceFromEnd = endX - x;
          transitionWidth = width * 0.2
      in if distanceFromStart < transitionWidth then
           (let prevHeight =
                  jsOr (getTerrainHeightNear T (start - 0.1))
                       (generateHills T (start - 0.1) (start - segmentWidth) start difficulty);
                t = distanceFromStart / transitionWidth
            in smoothTransition t prevHeight baseHeight Quintic)
         else if distanceFromEnd < transitionWidth then
           (let nextHeight =
                  jsOr (getTerrainHeightNear T (endX + 0.1))
                       (generateHills T (endX + 0.1) endX (endX + segmentWidth) difficulty);
                t = distanceFromEnd / transitionWidth
            in smoothTransition t nextHeight baseHeight Quintic)
         else baseHeight + sin (x * 0.3) * 0.2 + cos (x * 0.7) * 0.1)"

text \<open>The void window \<open>[gapStart, gapEnd)\<close> of \<open>generateGap\<close>.\<close>

definition gapWidth :: "real \<Rightarrow> real" where
  "gapWidth difficulty = min (3 + min (difficulty * 0.7) 0.6 * 2) 5.0"

definition gapStart :: "real \<Rightarrow> real \<Rightarrow> real \<Rightarrow> real" where
  "gapStart start endX difficulty = (start + endX) / 2 - gapWidth difficulty / 2"

definition gapEnd :: "real \<Rightarrow> real \<Rightarrow> real \<Rightarrow> real" where
  "gapEnd start endX difficulty = (start + endX) / 2 + gapWidth difficulty / 2"

definition generateGap :: "'w terrain \<Rightarrow> real \<Rightarrow> real \<Rightarrow> real \<Rightarrow> real \<Rightarrow> real option" where
  "generateGap T x start endX difficulty =
     (let adjustedDifficulty = min (difficulty * 0.7) 0.6;
          width = endX - start;
          gStart = gapStart start endX difficulty;
          gEnd = gapEnd start endX difficulty;
          transitionLength = width * 0.15
      in if x < gStart - transitionLength then
           Some (generateHills T x start (gStart - transitionLength)
                   (adjustedDifficulty * 0.3) + 0.5)
         else if x < gStart then
           (let baseHeight =
                  generateHills T (gStart - transitionLength) start
                    (gStart - transitionLength) (adjustedDifficulty * 0.3) + 0.5;
                t = (x - (gStart - transitionLength)) / transitionLength
            in Some (smoothTransition t baseHeight (- 24) Quintic))
         else if x < gEnd then None
         else if x < gEnd + transitionLength then
           (let afterGapHeight =
                  generateHills T (gEnd + transitionLength) (gEnd + transitionLength) endX
                    (adjustedDifficulty * 0.3) + 0.5;
                t = (x - gEnd) / transitionLength
            in Some (smoothTransition t (- 24) afterGapHeight Quintic))
         else
           Some (generateHills T x (gEnd + transitionLength) endX
                   (adjustedDifficulty * 0.3) + 0.5))"

definition generateRamp :: "'w terrain \<Rightarrow> real \<Rightarrow> real \<Rightarrow> real \<Rightarrow> real \<Rightarrow> real" where
  "generateRamp T x start endX difficulty =
     (let width = endX - start;
          adjustedDifficulty = min (difficulty * 0.7) 0.6;
          rampWidth = width * 0.6;
          rampCenter = (start + endX) / 2;
          rampStart = rampCenter - rampWidth / 2;
          rampPeak = rampCenter;
          rampEnd = rampCenter + rampWidth / 2;
          rampHeight = min (3 + adjustedDifficulty * 1.5) 5;
          transitionLength = width * 0.15
      in if x < rampStart then
           (let baseHeight = generateHills T x start rampStart (adjustedDifficulty * 0.3);
                distanceToRamp = rampStart - x
            in if distanceToRamp < transitionLength then
                 baseHeight + rampHeight * 0.1 *
                   cubicInterpolation (1 - distanceToRamp / transitionLength)
               else baseHeight)
         else if x < rampPeak then
           (let baseHeight =
                  generateHills T rampStart start rampStart (adjustedDifficulty * 0.3);
                t = (x - rampStart) / (rampPeak - rampStart)
            in bezierInterpolation t baseHeight (baseHeight + rampHeight * 0.3)
                 (baseHeight + rampHeight * 0.7) (baseHeight + rampHeight))
         else if x < rampEnd then
           (let baseHeight =
                  generateHills T rampStart start rampStart (adjustedDifficulty * 0.3);
                peakHeight = baseHeight + rampHeight;
                t = (x - rampPeak) / (rampEnd - rampPeak)
            in bezierInterpolation t peakHeight (peakHeight - rampHeight * 0.3)
                 (peakHeight - rampHeight * 0.7) baseHeight)
         else
           (let baseHeight = generateHills T x rampEnd endX (adjustedDifficulty * 0.3);
                distanceFromRamp = x - rampEnd
            in if distanceFromRamp < transitionLength then
                 baseHeight + rampHeight * 0.1 *
                   cubicInterpolation (1 - distanceFromRamp / transitionLength)
               else baseHeight))"

definition generateWashboard :: "'w terrain \<Rightarrow> real \<Rightarrow> real \<Rightarrow> real \<Rightarrow> real \<Rightarrow> real" where
  "generateWashboard T x start endX difficulty =
     (let width = endX - start;
          adjustedDifficulty = min (difficulty * 0.7) 0.6;
          washboardCenter = (start + endX) / 2;
          washboardWidth = width * 0.7;
          washboardStart = washboardCenter - washboardWidth / 2;
          washboardEnd = washboardCenter + washboardWidth / 2
      in if x < washboardStart then
           generateHills T x start washboardStart (adjustedDifficulty * 0.3)
         else if x < washboardEnd then
           (let baseHeight =
                  generateHills T washboardStart start washboardStart
                    (adjustedDifficulty * 0.3);
                normalizedX = (x - washboardStart) / (washboardEnd - washboardStart);
                phase = normalizedX * pi * 2 * 8;
                maxAmplitude = min (0.7 + adjustedDifficulty * 0.6) 1.5;
                fadeLength = washboardWidth * 0.2;
                distFromStart = x - washboardStart;
                distFromEnd = washboardEnd - x;
                amplitudeFactor =
                  (if distFromStart < fadeLength then
                     cubicInterpolation (distFromStart / fadeLength)
                   else if distFromEnd < fadeLength then
                     cubicInterpolation (distFromEnd / fadeLength)
                   else 1.0);
                mainWave = sin phase * maxAmplitude;
                secondaryWave = sin (phase * 2) * (maxAmplitude * 0.2)
            in baseHeight + (mainWave + secondaryWave) * amplitudeFactor)
         else generateHills T x washboardEnd endX (adjustedDifficulty * 0.3))"

definition generateValley :: "'w terrain \<Rightarrow> real \<Rightarrow> real \<Rightarrow> real \<Rightarrow> real \<Rightarrow> real" where
  "generateValley T x start endX difficulty =
     (let width = endX - start;
          adjustedDifficulty = min (difficulty * 0.7) 0.6;
          valleyWidth = width * 0.8;
          valleyDepth = min (3 + adjustedDifficulty * 2) 6;
          valleyCenter = (start + endX) / 2;
          valleyStart = valleyCenter - valleyWidth / 2;
          valleyEnd = valleyCenter + valleyWidth / 2
      in if x < valleyStart then
           generateHills T x start valleyStart (adjustedDifficulty * 0.3)
         else if x < valleyEnd then
           (let baseHeight =
                  generateHills T valleyStart start valleyStart (adjustedDifficulty * 0.3);
                t = (x - valleyStart) / valleyWidth;
                valleyShape = (1 - cos (pi * 2 * t)) / 2;
                irregularities = sin (x * 0.5) * 0.3 + cos (x * 0.3) * 0.2
            in baseHeight - valleyDepth * (1 - valleyShape) + irregularities * 0.3)
         else generateHills T x valleyEnd endX (adjustedDifficulty * 0.3))"

text \<open>The \<open>switch\<close> of \<open>createTerrainSegment\<close> over the chunk type.\<close>

definition generateChunk :: "'w terrain \<Rightarrow> chunk \<Rightarrow> real \<Rightarrow> real \<Rightarrow> real \<Rightarrow> real option" where
  "generateChunk T ctype x start difficulty =
     (case ctype of
        Hills \<Rightarrow> Some (generateHills T x start (start + segmentWidth) difficulty)
      | Plateau \<Rightarrow> Some (generatePlateau T x start (start + segmentWidth) difficulty)
      | Ramp \<Rightarrow> Some (generateRamp T x start (start + segmentWidth) difficulty)
      | Gap \<Rightarrow> generateGap T x start (start + segmentWidth) difficulty
      | Washboard \<Rightarrow> Some (generateWashboard T x start (start + segmentWidth) difficulty)
      | Valley \<Rightarrow> Some (generateValley T x start (start + segmentWidth) difficulty))"


section \<open>Smoothing a segment's samples\<close>

text \<open>
  \<open>smoothSegmentPoints\<close> works on the array \<open>validPoints\<close> of the samples whose height
  is not \<open>null\<close>; these are the same objects as in \<open>points\<close>, so the model keeps one
  list and the positions of the valid samples in it. The samples of one array are
  distinct objects.
\<close>

definition validIndices :: "sample list \<Rightarrow> nat list" where
  "validIndices pts = filter (\<lambda>k. height (pts ! k) \<noteq> None) [0..<length pts]"

definition windowSize :: nat where
  "windowSize = 5"

definition halfWindow :: nat where
  "halfWindow = windowSize div 2"

text \<open>The inner loop over \<open>j = -halfWindow .. halfWindow\<close>: the weighted sum around \<open>i\<close>.\<close>

definition windowSum :: "real option list \<Rightarrow> nat \<Rightarrow> real" where
  "windowSum originalHeights i =
     (\<Sum>j \<leftarrow> [- int halfWindow .. int halfWindow].
        numOf (originalHeights ! nat (int i + j)) *
        (1.0 - real_of_int \<bar>j\<bar> / (real halfWindow + 1)))"

definition smoothedY :: "real option list \<Rightarrow> nat \<Rightarrow> real" where
  "smoothedY originalHeights i = windowSum originalHeights i / real windowSize"

fun findIndex :: "('a \<Rightarrow> bool) \<Rightarrow> 'a list \<Rightarrow> nat option" where
  "findIndex P [] = None"
| "findIndex P (a # as) =
     (if P a then Some 0 else map_option Suc (findIndex P as))"

text \<open>One round of the last loop: copy the valid sample at position \<open>k\<close> onto the
  first sample with the same \<open>x\<close>, unless that one is a hole.\<close>

definition writeBack :: "nat \<Rightarrow> sample list \<Rightarrow> sample list" where
  "writeBack k pts =
     (case findIndex (\<lambda>p. px p = px (pts ! k)) pts of
        None \<Rightarrow> pts
      | Some m \<Rightarrow>
          if height (pts ! m) \<noteq> None
          then pts[m := (pts ! m)\<lparr>py := py (pts ! k), height := py (pts ! k)\<rparr>]
          else pts)"

definition smoothSegmentPoints :: "sample list \<Rightarrow> sample list" where
  "smoothSegmentPoints pts =
     (if length pts < 5 then pts
      else
        (let valid = validIndices pts
         in if length valid < 5 then pts
            else
              (let originalHeights = map (\<lambda>k. py (pts ! k)) valid;
                   smoothed =
                     fold (\<lambda>i ps. ps[valid ! i :=
                                     (ps ! (valid ! i))\<lparr>py := Some (smoothedY originalHeights i)\<rparr>])
                       [halfWindow ..< length valid - halfWindow] pts
               in fold writeBack valid smoothed)))"

section \<open>Building a segment\<close>

datatype js_error = TypeError

text \<open>The lateral zones in which decorations are placed, and the kinds of decoration.\<close>

record zone =
  zMin :: real
  zMax :: real
  densityFactor :: real
  hasRock :: bool
  hasTree :: bool
  hasSign :: bool

datatype decor = Rock | Tree | Sign

text \<open>
  What a call does to the collaborators is not interpreted: \<open>call ext\<close> maps each call
  to a change of the \<open>world\<close>. A call that the terrain code makes inside a \<open>try\<close> block
  of \<open>createBackgroundPhysics\<close> or \<open>addTerrainDecorations\<close> may throw, and \<open>throws ext\<close>
  says, for the call and the world it meets, whether it does. The other calls are
  taken not to throw.
\<close>

datatype ext_call =
    BuildSegment int segment
  | RemoveSegment segment
  | ApplyLOD "segment list" real
  | TerrainInfo int chunk
  | BackgroundBody int real nat real
  | Decoration decor zone nat real
  | KeySign real

record 'w ext =
  call :: "ext_call \<Rightarrow> 'w \<Rightarrow> 'w"
  throws :: "ext_call \<Rightarrow> 'w \<Rightarrow> bool"

text \<open>
  How a block of statements ends: by reaching its end, or by an exception; either
  way in some state. \<open>caught\<close> is a \<open>catch\<close> that only logs, \<open>andThen\<close> the sequence of
  two blocks, \<open>forEach\<close> a loop over an array.
\<close>

datatype 's outcome = Completed 's | Thrown 's

fun caught :: "'s outcome \<Rightarrow> 's" where
  "caught (Completed s) = s"
| "caught (Thrown s) = s"

fun andThen :: "'s outcome \<Rightarrow> ('s \<Rightarrow> 's outcome) \<Rightarrow> 's outcome" where
  "andThen (Completed s) f = f s"
| "andThen (Thrown s) f = Thrown s"

fun forEach :: "('a \<Rightarrow> 's \<Rightarrow> 's outcome) \<Rightarrow> 'a list \<Rightarrow> 's \<Rightarrow> 's outcome" where
  "forEach body [] s = Completed s"
| "forEach body (a # as) s = andThen (body a s) (forEach body as)"

text \<open>A collaborator call inside a \<open>try\<close> block.\<close>

definition guarded :: "'w ext \<Rightarrow> ext_call \<Rightarrow> 'w terrain \<Rightarrow> 'w terrain outcome" where
  "guarded ext c T =
     (let T' = T\<lparr>world := call ext c (world T)\<rparr>
      in if throws ext c (world T) then Thrown T' else Completed T')"

text \<open>
  \<open>previousEndHeight\<close>: the height of the last sample of the segment stored last, or
  \<open>null\<close> for an empty store. A last segment without samples makes the property
  access throw.
\<close>

definition previousEndHeight :: "'w terrain \<Rightarrow> js_error + real option" where
  "previousEndHeight T =
     (if length (terrainMeshes T) > 0 then
        (case points (last (terrainMeshes T)) of
           None \<Rightarrow> Inl TypeError
         | Some ps \<Rightarrow> if ps = [] then Inl TypeError else Inr (height (last ps)))
      else Inr None)"

definition nbPoints :: nat where
  "nbPoints = 30"

text \<open>The body of the sampling loop for index \<open>i\<close>.\<close>

definition samplePoint ::
  "'w terrain \<Rightarrow> chunk \<Rightarrow> real \<Rightarrow> real \<Rightarrow> real option \<Rightarrow> nat \<Rightarrow> sample" where
  "samplePoint T ctype start difficulty prevEnd i =
     (let x = start + (real i / (real nbPoints - 1)) * segmentWidth;
          normalizedX = real i / (real nbPoints - 1);
          isGap = (ctype = Gap \<and> normalizedX > 0.3 \<and> normalizedX < 0.7);
          generatedY = generateChunk T ctype x start difficulty;
          y = (if i > 0 \<and> i < 5 \<and> prevEnd \<noteq> None then
                 (let blendFactor = 1 - quinticInterpolation (real i / 5)
                  in Some (numOf prevEnd * blendFactor + numOf generatedY * (1 - blendFactor)))
               else generatedY)
      in \<lparr>px = x,
          py = (if isGap then Some (- 24) else y),
          height = (if isGap then None else y)\<rparr>)"

text \<open>
  \<open>createBackgroundPhysics\<close>: for every side, depth level and third of the samples
  that holds at least one sample with a height, one draw and then one body handed to
  the physics collaborator. All of it runs in one \<open>try\<close> block: an exception ends the
  loops, and the draws of the rounds that are left are not made.
\<close>

definition subsegmentCount :: "sample list \<Rightarrow> nat \<Rightarrow> nat" where
  "subsegmentCount pts i =
     (let subsegments = 3;
          startIdx = (i * length pts) div subsegments;
          endIdx = ((i + 1) * length pts) div subsegments
      in length (filter (\<lambda>j. height (pts ! j) \<noteq> None) [startIdx ..< endIdx]))"

definition createBackgroundPhysics :: "'w ext \<Rightarrow> sample list \<Rightarrow> 'w terrain \<Rightarrow> 'w terrain" where
  "createBackgroundPhysics ext pts T =
     (if length pts < 2 then T
      else
        caught
          (forEach (\<lambda>side. forEach (\<lambda>depthFactor. forEach (\<lambda>i S.
                  if subsegmentCount pts i > 0 then
                    (let (r, S1) = seededRandom S
                     in guarded ext (BackgroundBody side depthFactor i r) S1)
                  else Completed S)
                [0, 1, 2])
              [0.3, 0.7, 1.0 :: real])
            [- 1, 1 :: int] T))"

text \<open>
  \<open>addTerrainDecorations\<close>: in every zone the rocks, then the trees, then the signs.
  Each round of a placement loop makes one draw, unless no sample is available, and
  then places the decoration; before the loop of the signs one sign is set at key
  positions, without a draw. All of it runs in one \<open>try\<close> block: an exception ends
  the loops, and the draws of the rounds that are left are not made.
\<close>

definition zones :: "zone list" where
  "zones =
     [\<lparr>zMin = - 6 / 2, zMax = 6 / 2, densityFactor = 0.3,
        hasRock = True, hasTree = False, hasSign = False\<rparr>,
      \<lparr>zMin = - 6 / 2 - 5, zMax = - 6 / 2, densityFactor = 1.0,
        hasRock = True, hasTree = True, hasSign = True\<rparr>,
      \<lparr>zMin = 6 / 2, zMax = 6 / 2 + 5, densityFactor = 1.0,
        hasRock = True, hasTree = True, hasSign = True\<rparr>,
      \<lparr>zMin = - 6 / 2 - 20, zMax = - 6 / 2 - 5, densityFactor = 2.0,
        hasRock = True, hasTree = True, hasSign = False\<rparr>,
      \<lparr>zMin = 6 / 2 + 5, zMax = 6 / 2 + 20, densityFactor = 2.0,
        hasRock = True, hasTree = True, hasSign = False\<rparr>]"

definition terrainMultiplier :: "chunk \<Rightarrow> real" where
  "terrainMultiplier ctype =
     (case ctype of Hills \<Rightarrow> 1.8 | Plateau \<Rightarrow> 1.5 | Ramp \<Rightarrow> 0.8
      | Washboard \<Rightarrow> 0.6 | Valley \<Rightarrow> 1.0 | Gap \<Rightarrow> 1.2)"

definition availablePoints :: "sample list \<Rightarrow> sample list" where
  "availablePoints pts =
     map (\<lambda>i. pts ! i)
       (filter (\<lambda>i. i > 2 \<and> int i < int (length pts) - 3 \<and> height (pts ! i) \<noteq> None)
          [0..<length pts])"

text \<open>\<open>rockCount\<close>, \<open>treeCount\<close> and \<open>signCount\<close> of a zone.\<close>

definition decorCount :: "sample list \<Rightarrow> chunk \<Rightarrow> zone \<Rightarrow> decor \<Rightarrow> nat" where
  "decorCount pts ctype z k =
     (let n = real (min (length pts) 40);
          zoneWidth = zMax z - zMin z
      in case k of
           Rock \<Rightarrow> nat \<lfloor>n * 0.1 * densityFactor z * terrainMultiplier ctype * (zoneWidth / 5)\<rfloor>
         | Tree \<Rightarrow> nat \<lfloor>n * 0.1 * densityFactor z * terrainMultiplier ctype * (zoneWidth / 5)\<rfloor>
         | Sign \<Rightarrow> nat \<lfloor>n * 0.2 * densityFactor z * terrainMultiplier ctype * (zoneWidth / 10)\<rfloor>)"

text \<open>One placement loop: \<open>getRandomPoint\<close>, then the placement.\<close>

definition placeEach ::
  "'w ext \<Rightarrow> sample list \<Rightarrow> chunk \<Rightarrow> zone \<Rightarrow> decor \<Rightarrow> 'w terrain \<Rightarrow> 'w terrain outcome" where
  "placeEach ext pts ctype z k =
     forEach (\<lambda>i S.
         if availablePoints pts = [] then Completed S
         else (let (r, S1) = seededRandom S
               in guarded ext (Decoration k z i r) S1))
       [0 ..< decorCount pts ctype z k]"

text \<open>The remainder \<open>a % b\<close> of two numbers: that of the quotient cut toward zero.\<close>

definition jsrem :: "real \<Rightarrow> real \<Rightarrow> real" where
  "jsrem a b = a - b * real_of_int (if 0 \<le> a / b then \<lfloor>a / b\<rfloor> else \<lceil>a / b\<rceil>)"

definition keySignDue :: "real \<Rightarrow> bool" where
  "keySignDue start = ((jsrem start 50 < 10 \<or> jsrem start 100 < 20) \<and> start > 10)"

definition decorateZone ::
  "'w ext \<Rightarrow> real \<Rightarrow> sample list \<Rightarrow> chunk \<Rightarrow> zone \<Rightarrow> 'w terrain \<Rightarrow> 'w terrain outcome" where
  "decorateZone ext start pts ctype z S =
     andThen (if hasRock z then placeEach ext pts ctype z Rock S else Completed S)
       (\<lambda>S1. andThen (if hasTree z then placeEach ext pts ctype z Tree S1 else Completed S1)
         (\<lambda>S2. if hasSign z then
                  andThen (if keySignDue start \<and> availablePoints pts \<noteq> []
                           then guarded ext (KeySign start) S2 else Completed S2)
                    (placeEach ext pts ctype z Sign)
                else Completed S2))"

definition addTerrainDecorations ::
  "'w ext \<Rightarrow> real \<Rightarrow> sample list \<Rightarrow> chunk \<Rightarrow> 'w terrain \<Rightarrow> 'w terrain" where
  "addTerrainDecorations ext start pts ctype T =
     caught (forEach (decorateZone ext start pts ctype) zones T)"

text \<open>
  \<open>createTerrainSegment\<close>: one draw for the chunk type, the samples (generated while
  the new segment is not yet stored), the smoothing pass, the meshes and the physics
  of the track, the physics backdrop, the decorations, and the push onto the store.
\<close>

definition createTerrainSegment ::
  "'w ext \<Rightarrow> real \<Rightarrow> 'w terrain \<Rightarrow> (js_error + segment) \<times> 'w terrain" where
  "createTerrainSegment ext start T =
     (let difficulty = min 0.99 (max 0 (\<bar>start\<bar> / 5000));
          (ctype, T1) = selectChunkType difficulty T
      in case previousEndHeight T1 of
           Inl e \<Rightarrow> (Inl e, T1)
         | Inr prevEnd \<Rightarrow>
             (let pts = smoothSegmentPoints
                          (map (samplePoint T1 ctype start difficulty prevEnd) [0..<nbPoints]);
                  seg = \<lparr>startX = start, points = Some pts, chunkType = ctype\<rparr>;
                  T2 = T1\<lparr>world := call ext (BuildSegment (seed T1) seg) (world T1)\<rparr>;
                  T3 = createBackgroundPhysics ext pts T2;
                  T4 = addTerrainDecorations ext start pts ctype T3
              in (Inr seg, T4\<lparr>terrainMeshes := terrainMeshes T4 @ [seg]\<rparr>)))"

text \<open>Building a list of segments one after the other; an exception ends the run.\<close>

fun buildAll :: "'w ext \<Rightarrow> real list \<Rightarrow> 'w terrain \<Rightarrow> js_error + 'w terrain" where
  "buildAll ext [] T = Inr T"
| "buildAll ext (start # rest) T =
     (case createTerrainSegment ext start T of
        (Inl e, T') \<Rightarrow> Inl e
      | (Inr seg, T') \<Rightarrow> buildAll ext rest T')"

text \<open>The constructor with \<open>initialize\<close>: twenty segments, from index -5.\<close>

definition initialize :: "'w ext \<Rightarrow> 'w terrain \<Rightarrow> js_error + 'w terrain" where
  "initialize ext T =
     (let initialSegments = 20 :: int;
          startOffset = - 5 :: int
      in buildAll ext
           (map (\<lambda>i. real_of_int i * segmentWidth)
              [startOffset .. initialSegments + startOffset - 1]) T)"

definition newTerrain :: "'w ext \<Rightarrow> 'w \<Rightarrow> int \<Rightarrow> js_error + 'w terrain" where
  "newTerrain ext w seed0 =
     initialize ext
       \<lparr>seed = seed0, noiseOffsetX = jsmod seed0 10000, terrainMeshes = [], world = w\<rparr>"

section \<open>The update tick\<close>

text \<open>
  The tracked position as the tick receives it: no object at all, an \<open>x\<close> that is not
  of type number, or a number, which may be \<open>NaN\<close> or infinite.
\<close>

datatype jsnum = Finite real | PosInf | NegInf | NaN

datatype xval = XNumber jsnum | XOther

datatype vpos = NoPosition | Position xval

text \<open>\<open>currentSegmentIndex\<close> once it has passed the checks: an integer or \<open>+Infinity\<close>.\<close>

datatype target = At int | Beyond

definition segmentsAhead :: int where
  "segmentsAhead = 5"

definition segmentsBehind :: int where
  "segmentsBehind = 5"

text \<open>
  The two checks at the head of \<open>update\<close>: \<open>None\<close> is the early return. The index is
  \<open>Math.floor(x / segmentWidth)\<close>; it is refused when it is \<open>NaN\<close> or negative.
\<close>

definition trackedIndex :: "vpos \<Rightarrow> (jsnum \<times> target) option" where
  "trackedIndex vehiclePosition =
     (case vehiclePosition of
        NoPosition \<Rightarrow> None
      | Position XOther \<Rightarrow> None
      | Position (XNumber NaN) \<Rightarrow> None
      | Position (XNumber NegInf) \<Rightarrow> None
      | Position (XNumber PosInf) \<Rightarrow> Some (PosInf, Beyond)
      | Position (XNumber (Finite x)) \<Rightarrow>
          (let currentSegmentIndex = \<lfloor>x / segmentWidth\<rfloor>
           in if currentSegmentIndex < 0 then None
              else Some (Finite x, At currentSegmentIndex)))"

text \<open>Removing duplicates: the first segment of each \<open>startX\<close> is kept.\<close>

fun dedupe ::
  "'w ext \<Rightarrow> segment list \<Rightarrow> segment list \<Rightarrow> real set \<Rightarrow> 'w \<Rightarrow> segment list \<times> 'w" where
  "dedupe ext [] uniqueSegments processedStartX w = (uniqueSegments, w)"
| "dedupe ext (s # rest) uniqueSegments processedStartX w =
     (if startX s \<notin> processedStartX
      then dedupe ext rest (uniqueSegments @ [s]) (insert (startX s) processedStartX) w
      else dedupe ext rest uniqueSegments processedStartX (call ext (RemoveSegment s) w))"

text \<open>\<open>lastSegmentIndex >= currentSegmentIndex + segmentsAhead\<close>.\<close>

fun aheadReached :: "int \<Rightarrow> target \<Rightarrow> bool" where
  "aheadReached lastSegmentIndex (At c) = (lastSegmentIndex \<ge> c + segmentsAhead)"
| "aheadReached lastSegmentIndex Beyond = False"

text \<open>
  The generation loop \<open>while (true)\<close>. It is left by \<open>break\<close> or by an exception of
  \<open>createTerrainSegment\<close>, which the enclosing \<open>try\<close> swallows; either way the tick
  goes on with the store as it stands. When the next start position is already in
  the set of known positions, the round changes nothing and the loop repeats it.
\<close>

partial_function (option) generateAhead ::
  "'w ext \<Rightarrow> target \<Rightarrow> real set \<Rightarrow> 'w terrain \<Rightarrow> (real set \<times> 'w terrain) option" where
  "generateAhead ext cur existingSegmentsStartX T =
     (let lastSegmentIndex =
            (if length (terrainMeshes T) > 0
             then \<lfloor>startX (last (terrainMeshes T)) / segmentWidth\<rfloor>
             else - 1)
      in if aheadReached lastSegmentIndex cur then Some (existingSegmentsStartX, T)
         else
           (let nextStartX =
                  (if length (terrainMeshes T) > 0
                   then startX (last (terrainMeshes T)) + segmentWidth
                   else 0)
            in if nextStartX \<notin> existingSegmentsStartX then
                 (case createTerrainSegment ext nextStartX T of
                    (Inl e, T') \<Rightarrow> Some (existingSegmentsStartX, T')
                  | (Inr seg, T') \<Rightarrow>
                      generateAhead ext cur (insert nextStartX existingSegmentsStartX) T')
               else generateAhead ext cur existingSegmentsStartX T))"

fun behindPassed :: "target \<Rightarrow> bool" where
  "behindPassed (At c) = (c > segmentsBehind)"
| "behindPassed Beyond = True"

fun farBehind :: "int \<Rightarrow> target \<Rightarrow> bool" where
  "farBehind firstSegmentIndex (At c) = (firstSegmentIndex < c - segmentsBehind)"
| "farBehind firstSegmentIndex Beyond = True"

text \<open>The eviction loop: drop the first segment while it lies far behind.\<close>

function evictBehind ::
  "'w ext \<Rightarrow> target \<Rightarrow> real set \<Rightarrow> 'w terrain \<Rightarrow> real set \<times> 'w terrain" where
  "evictBehind ext cur existingSegmentsStartX T =
     (if int (length (terrainMeshes T)) > segmentsAhead + segmentsBehind \<and> behindPassed cur
      then
        (let firstSegment = hd (terrainMeshes T);
             firstSegmentIndex = \<lfloor>startX firstSegment / segmentWidth\<rfloor>
         in if farBehind firstSegmentIndex cur
            then evictBehind ext cur (existingSegmentsStartX - {startX firstSegment})
                   (T\<lparr>terrainMeshes := tl (terrainMeshes T),
                      world := call ext (RemoveSegment firstSegment) (world T)\<rparr>)
            else (existingSegmentsStartX, T))
      else (existingSegmentsStartX, T))"
  by pat_completeness (simp_all only: prod.inject)
termination
proof (relation "measure (\<lambda>(ext, cur, existing, T). length (terrainMeshes T))", goal_cases)
  case 1
  show ?case by (rule wf_measure)
next
  case (2 ext cur existing T firstSegment firstSegmentIndex)
  from 2(1) have "terrainMeshes T \<noteq> []"
    by (auto simp: segmentsAhead_def segmentsBehind_def)
  then show ?case by simp
qed

declare evictBehind.simps [simp del]

text \<open>
  The outcome of a tick that returns. A tick that reaches \<open>createTerrainSegment\<close> with
  the start position \<open>Infinity\<close> leaves the real-valued coordinates of this model:
  \<open>OffModel\<close> holds the state just before that call.
\<close>

datatype 'w tick = Ticked "'w terrain" | OffModel "'w terrain"

text \<open>The display steps that close a tick: level of detail, then the info panel.\<close>

definition finishTick :: "'w ext \<Rightarrow> real \<Rightarrow> int \<Rightarrow> chunk \<Rightarrow> 'w terrain \<Rightarrow> 'w terrain" where
  "finishTick ext x currentSegmentIndex currentChunkType T =
     T\<lparr>world := call ext (TerrainInfo currentSegmentIndex currentChunkType)
                  (call ext (ApplyLOD (terrainMeshes T) x) (world T))\<rparr>"

text \<open>
  The check that some segment holds the tracked position, and the forced build when
  none does. An exception of that build is caught by the outer \<open>try\<close> and ends the
  tick before the display steps.
\<close>

definition selfHeal ::
  "'w ext \<Rightarrow> jsnum \<Rightarrow> chunk \<Rightarrow> real set \<Rightarrow> 'w terrain \<Rightarrow> 'w tick" where
  "selfHeal ext tracked currentChunkType existingSegmentsStartX T =
     (case tracked of
        Finite x \<Rightarrow>
          (let currentSegmentIndex = \<lfloor>x / segmentWidth\<rfloor>;
               currentTerrainExists = list_ex (\<lambda>s. covers s x) (terrainMeshes T)
           in if \<not> currentTerrainExists then
                (let segmentStartX = real_of_int \<lfloor>x / segmentWidth\<rfloor> * segmentWidth
                 in if segmentStartX \<notin> existingSegmentsStartX then
                      (case createTerrainSegment ext segmentStartX T of
                         (Inl e, T') \<Rightarrow> Ticked T'
                       | (Inr seg, T') \<Rightarrow>
                           Ticked (finishTick ext x currentSegmentIndex currentChunkType T'))
                    else Ticked (finishTick ext x currentSegmentIndex currentChunkType T))
              else Ticked (finishTick ext x currentSegmentIndex currentChunkType T))
      | _ \<Rightarrow> OffModel T)"

text \<open>
  \<open>update\<close>. \<open>None\<close> means that the tick never returns; an early return gives back
  the state it received.
\<close>

definition update :: "'w ext \<Rightarrow> vpos \<Rightarrow> 'w terrain \<Rightarrow> 'w tick option" where
  "update ext vehiclePosition T =
     (case trackedIndex vehiclePosition of
        None \<Rightarrow> Some (Ticked T)
      | Some (tracked, cur) \<Rightarrow>
          (let currentChunkType =
                 (case tracked of
                    Finite x \<Rightarrow>
                      (case find (\<lambda>s. covers s x) (terrainMeshes T) of
                         Some s \<Rightarrow> chunkType s
                       | None \<Rightarrow> Hills)
                  | _ \<Rightarrow> Hills);
               existingSegmentsStartX = set (map startX (terrainMeshes T));
               (uniqueSegments, w) = dedupe ext (terrainMeshes T) [] {} (world T);
               T1 = T\<lparr>terrainMeshes := uniqueSegments, world := w\<rparr>
           in case generateAhead ext cur existingSegmentsStartX T1 of
                None \<Rightarrow> None
              | Some (existing2, T2) \<Rightarrow>
                  (let (existing3, T3) = evictBehind ext cur existing2 T2
                   in Some (selfHeal ext tracked currentChunkType existing3 T3))))"

section \<open>The height query as a step of the terrain object\<close>

text \<open>
  The height query as the code runs it on the terrain object: a field is read from
  the object as it is at that moment, and every call hands the object on to the
  statements after it.
\<close>

definition readField :: "('w terrain \<Rightarrow> 'a) \<Rightarrow> ('w terrain, 'a) state" where
  "readField f = do { T \<leftarrow> State_Monad.get; State_Monad.return (f T) }"

definition noiseM :: "real \<Rightarrow> ('w terrain, real) state" where
  "noiseM x = do {
     let X = \<lfloor>x\<rfloor> mod 256;
     let xf = x - of_int \<lfloor>x\<rfloor>;
     let fadeX = xf * xf * (3 - 2 * xf);
     s0 \<leftarrow> readField seed;
     let offset = jsmod s0 256;
     let h1 = (X + offset) mod 256;
     let h2 = (X + 1 + offset) mod 256;
     s1 \<leftarrow> readField seed;
     let n1 = sin (of_int h1 * 37.1 + of_int s1 * 0.1) * 43758.5453;
     s2 \<leftarrow> readField seed;
     let n2 = sin (of_int h2 * 37.1 + of_int s2 * 0.1) * 43758.5453;
     let res1 = (n1 - of_int \<lfloor>n1\<rfloor>) * 2 - 1;
     let res2 = (n2 - of_int \<lfloor>n2\<rfloor>) * 2 - 1;
     State_Monad.return (res1 + fadeX * (res2 - res1))
   }"

fun noiseOctavesM ::
  "real \<Rightarrow> nat \<Rightarrow> real \<Rightarrow> real \<Rightarrow> real \<Rightarrow> real \<Rightarrow> real \<Rightarrow> real \<Rightarrow> ('w terrain, real \<times> real) state" where
  "noiseOctavesM seedX 0 persistence lacunarity frequency amplitude acc maxValue =
     State_Monad.return (acc, maxValue)"
| "noiseOctavesM seedX (Suc n) persistence lacunarity frequency amplitude acc maxValue = do {
     v \<leftarrow> noiseM (seedX * frequency);
     noiseOctavesM seedX n persistence lacunarity
       (frequency * lacunarity) (amplitude * persistence)
       (acc + v * amplitude) (maxValue + amplitude)
   }"

definition improvedNoiseM ::
  "real \<Rightarrow> real \<Rightarrow> nat \<Rightarrow> real \<Rightarrow> real \<Rightarrow> ('w terrain, real) state" where
  "improvedNoiseM x frequency octaves persistence lacunarity = do {
     offsetX \<leftarrow> readField noiseOffsetX;
     let seedX = x + of_int offsetX;
     (acc, maxValue) \<leftarrow> noiseOctavesM seedX octaves persistence lacunarity frequency 1 0 0;
     State_Monad.return (acc / maxValue)
   }"

definition getTerrainHeightNearM :: "real \<Rightarrow> ('w terrain, jsval) state" where
  "getTerrainHeightNearM x = do {
     meshes \<leftarrow> readField terrainMeshes;
     State_Monad.return
       (case find (\<lambda>s. covers s x) meshes of
          None \<Rightarrow> Undefined
        | Some s \<Rightarrow>
            (case points s of
               None \<Rightarrow> Undefined
             | Some ps \<Rightarrow>
                 (let pointIndex = \<lfloor>((x - startX s) / segmentWidth) * real (length ps)\<rfloor>
                  in if 0 \<le> pointIndex \<and> nat pointIndex < length ps
                     then jsOf (py (ps ! nat pointIndex))
                     else Undefined)))
   }"

function generateHillsM :: "real \<Rightarrow> real \<Rightarrow> real \<Rightarrow> real \<Rightarrow> ('w terrain, real) state"
  and getTerrainHeightAtM :: "real \<Rightarrow> ('w terrain, jsval) state" where
  "generateHillsM x start endX difficulty = do {
     let adjustedDifficulty = min (difficulty * 0.6) 0.5;
     let maxAmplitude = 1.8;
     let amplitude = min (1.2 + adjustedDifficulty * 1.3) maxAmplitude;
     baseNoise \<leftarrow> improvedNoiseM x 0.05 3 0.5 2.0;
     detailNoise \<leftarrow> improvedNoiseM x 0.2 2 0.3 2.5;
     let rawHeight = baseNoise * amplitude + detailNoise * (amplitude * 0.3);
     previousHeight \<leftarrow> getTerrainHeightNearM (x - 0.5);
     let delta = rawHeight - jsNum previousHeight;
     let maxHeightDelta = 0.15;
     if previousHeight \<noteq> Undefined \<and> \<bar>delta\<bar> > maxHeightDelta then
       (let t = min (\<bar>delta\<bar> / maxHeightDelta) 1;
            smoothFactor = quinticInterpolation (1 - t)
        in State_Monad.return (jsNum previousHeight + delta * smoothFactor))
     else if x - start < 1.0 then do {
       prevSegmentHeight \<leftarrow> getTerrainHeightAtM (start - 0.1);
       State_Monad.return
         (case prevSegmentHeight of
            Num p \<Rightarrow> (let t = quinticInterpolation (x - start) in p * (1 - t) + rawHeight * t)
          | _ \<Rightarrow> rawHeight)
     }
     else if endX - x < 1.0 then do {
       nextSegmentHeight \<leftarrow> getTerrainHeightAtM (endX + 0.1);
       State_Monad.return
         (case nextSegmentHeight of
            Num q \<Rightarrow> (let t = quinticInterpolation (endX - x) in rawHeight * (1 - t) + q * t)
          | _ \<Rightarrow> rawHeight)
     }
     else State_Monad.return rawHeight
   }"
| "getTerrainHeightAtM x = do {
     meshes \<leftarrow> readField terrainMeshes;
     case find (\<lambda>s. covers s x) meshes of
       Some s \<Rightarrow> State_Monad.return (heightInSegment s x)
     | None \<Rightarrow> do {
         h \<leftarrow> generateHillsM x (x - 10) (x + 10) 0.1;
         State_Monad.return (Num h)
       }
   }"
  by pat_completeness (simp_all only: sum.inject prod.inject sum.distinct)
termination
proof (relation "measure (\<lambda>a. case a of
                   Inl (x, start, endX, d) \<Rightarrow>
                     (if x - start < 1 \<or> endX - x < 1 then 2 else 0)
                 | Inr x \<Rightarrow> 1)", goal_cases)
  case 1
  show ?case by (rule wf_measure)
next
  case 2
  from 2(8) show ?case by simp
next
  case 3
  from 3(9) show ?case by simp
next
  case 4
  show ?case by simp
qed

declare generateHillsM.simps [simp del] getTerrainHeightAtM.simps [simp del]

section \<open>Auxiliary notions for the proofs\<close>

text \<open>Everything of a terrain but the state of the generator and the collaborators.\<close>

definition rest :: "'w terrain \<Rightarrow> int \<times> segment list" where
  "rest T = (noiseOffsetX T, terrainMeshes T)"

text \<open>\<open>n\<close> draws from the generator, results dropped.\<close>

definition drawN :: "nat \<Rightarrow> 'w terrain \<Rightarrow> 'w terrain" where
  "drawN n T = ((\<lambda>S. snd (seededRandom S)) ^^ n) T"

text \<open>The store holds each start position once, and the set of known positions
  covers them.\<close>

definition storeInv :: "real set \<Rightarrow> 'w terrain \<Rightarrow> bool" where
  "storeInv E T =
     (distinct (map startX (terrainMeshes T)) \<and> set (map startX (terrainMeshes T)) \<subseteq> E)"

fun tickTerrain :: "'w tick \<Rightarrow> 'w terrain" where
  "tickTerrain (Ticked T) = T"
| "tickTerrain (OffModel T) = T"

text \<open>Collaborators without a state, and a segment without samples, for the
  concrete instances.\<close>

definition ext0 :: "unit ext" where
  "ext0 = \<lparr>call = (\<lambda>c w. w), throws = (\<lambda>c w. False)\<rparr>"

definition bare :: "real \<Rightarrow> segment" where
  "bare start = \<lparr>startX = start, points = None, chunkType = Hills\<rparr>"

text \<open>A segment with at least one sample.\<close>

definition hasPoints :: "segment \<Rightarrow> bool" where
  "hasPoints s = (case points s of None \<Rightarrow> False | Some ps \<Rightarrow> ps \<noteq> [])"

text \<open>Samples for the concrete instances: solid ground and a hole.\<close>

definition solid :: "real \<Rightarrow> real \<Rightarrow> sample" where
  "solid x h = \<lparr>px = x, py = Some h, height = Some h\<rparr>"

definition hole :: "real \<Rightarrow> sample" where
  "hole x = \<lparr>px = x, py = Some (- 24), height = None\<rparr>"

text \<open>An empty store whose next draw selects a gap at difficulty 0.304.\<close>

definition T18 :: "unit terrain" where
  "T18 = \<lparr>seed = 18, noiseOffsetX = 18, terrainMeshes = [], world = ()\<rparr>"




text \<open>A segment of thirty samples, all at height \<open>h\<close>.\<close>

definition flat :: "real \<Rightarrow> real \<Rightarrow> segment" where
  "flat start h =
     \<lparr>startX = start,
      points = Some (map (\<lambda>i. solid (start + real i * 40 / 29) h) [0..<30]),
      chunkType = Plateau\<rparr>"

text \<open>A store holding one flat segment over \<open>[1480, 1520)\<close> at height 2, in a state
  whose next draw selects a gap at difficulty 0.304.\<close>

definition Tflat :: "unit terrain" where
  "Tflat = \<lparr>seed = 18, noiseOffsetX = 18, terrainMeshes = [flat 1480 2], world = ()\<rparr>"

text \<open>The state of a terrain object constructed with seed 0, before its first draw.\<close>

definition T0 :: "unit terrain" where
  "T0 = \<lparr>seed = 0, noiseOffsetX = 0, terrainMeshes = [], world = ()\<rparr>"


definition extFail :: "unit ext" where
  "extFail = \<lparr>call = (\<lambda>c w. w), throws = (\<lambda>c w. True)\<rparr>"


section \<open>Basic facts\<close>

lemma rest_simps:
  "rest A = rest B \<Longrightarrow> noiseOffsetX A = noiseOffsetX B"
  "rest A = rest B \<Longrightarrow> terrainMeshes A = terrainMeshes B"
  by (simp_all add: rest_def)

lemma rest_seededRandom [simp]: "rest (snd (seededRandom T)) = rest T"
  by (simp add: seededRandom_def rest_def Let_def)

lemma rest_funpow:
  fixes f :: "'w terrain \<Rightarrow> 'w terrain"
  shows "(\<And>S. rest (f S) = rest S) \<Longrightarrow> rest ((f ^^ n) T) = rest T"
  by (induction n) simp_all

lemma rest_drawN [simp]: "rest (drawN n T) = rest T"
  unfolding drawN_def by (rule rest_funpow) simp

lemma snd_selectChunkType: "snd (selectChunkType d T) = snd (seededRandom T)"
  by (simp add: selectChunkType_def case_prod_beta Let_def)

lemma rest_selectChunkType [simp]: "rest (snd (selectChunkType d T)) = rest T"
  by (simp add: snd_selectChunkType)

lemma rest_fold:
  "(\<And>a S. rest (f a S) = rest S) \<Longrightarrow> rest (fold f xs T) = rest T"
  by (induction xs arbitrary: T) simp_all

lemma rest_guarded [simp]: "rest (caught (guarded ext c T)) = rest T"
  by (simp add: guarded_def rest_def Let_def)

lemma rest_andThen:
  assumes "rest (caught m) = r" and "\<And>S. rest S = r \<Longrightarrow> rest (caught (f S)) = r"
  shows "rest (caught (andThen m f)) = r"
  using assms by (cases m) simp_all

lemma rest_forEach:
  assumes "\<And>a S. rest (caught (body a S)) = rest S"
  shows "rest (caught (forEach body xs T)) = rest T"
proof (induction xs arbitrary: T)
  case Nil
  show ?case by simp
next
  case (Cons a xs)
  show ?case unfolding forEach.simps
    by (rule rest_andThen[OF assms]) (simp add: Cons.IH)
qed

lemma rest_createBackgroundPhysics [simp]:
  "rest (createBackgroundPhysics ext pts T) = rest T"
proof (cases "length pts < 2")
  case True
  then show ?thesis by (simp add: createBackgroundPhysics_def)
next
  case False
  have "rest (caught (forEach (\<lambda>side. forEach (\<lambda>depthFactor. forEach (\<lambda>i S.
                  if subsegmentCount pts i > 0 then
                    (let (r, S1) = seededRandom S
                     in guarded ext (BackgroundBody side depthFactor i r) S1)
                  else Completed S)
                [0, 1, 2])
              [0.3, 0.7, 1.0 :: real])
            [- 1, 1 :: int] T)) = rest T"
    by (intro rest_forEach) (simp add: case_prod_beta)
  with False show ?thesis by (simp only: createBackgroundPhysics_def if_False)
qed

lemma rest_placeEach [simp]: "rest (caught (placeEach ext pts c z k T)) = rest T"
  unfolding placeEach_def by (rule rest_forEach) (simp add: case_prod_beta)

lemma rest_decorateZone [simp]: "rest (caught (decorateZone ext start pts c z T)) = rest T"
proof -
  have p: "rest (caught (if b then placeEach ext pts c z k S else Completed S)) = rest S"
    for b k S by simp
  have g: "rest (caught (if b then guarded ext e S else Completed S)) = rest S"
    for b e S by simp
  have s: "rest (caught (if hasSign z then
                  andThen (if keySignDue start \<and> availablePoints pts \<noteq> []
                           then guarded ext (KeySign start) S else Completed S)
                    (placeEach ext pts c z Sign)
                else Completed S)) = rest S" for S
  proof (cases "hasSign z")
    case True
    have "rest (caught (andThen (if keySignDue start \<and> availablePoints pts \<noteq> []
                           then guarded ext (KeySign start) S else Completed S)
                    (placeEach ext pts c z Sign))) = rest S"
      by (rule rest_andThen[OF g]) simp
    with True show ?thesis by simp
  next
    case False
    then show ?thesis by simp
  qed
  show ?thesis
    unfolding decorateZone_def
    by (rule rest_andThen[OF p], rule rest_andThen) (simp_all add: p s)
qed

lemma rest_addTerrainDecorations [simp]:
  "rest (addTerrainDecorations ext start pts c T) = rest T"
  unfolding addTerrainDecorations_def by (rule rest_forEach) simp

lemma findIndex_Some_iff:
  "findIndex P xs = Some m \<longleftrightarrow> m < length xs \<and> P (xs ! m) \<and> (\<forall>j<m. \<not> P (xs ! j))"
proof (induction xs arbitrary: m)
  case Nil
  then show ?case by simp
next
  case (Cons a as)
  show ?case
  proof (cases "P a")
    case True
    then show ?thesis by (cases m) auto
  next
    case False
    show ?thesis
    proof (cases m)
      case 0
      with False show ?thesis by auto
    next
      case (Suc n)
      have "(\<forall>j<Suc n. \<not> P ((a # as) ! j)) \<longleftrightarrow> (\<forall>j<n. \<not> P (as ! j))"
        using False by (auto simp: less_Suc_eq_0_disj)
      with False Suc Cons.IH[of n] show ?thesis by auto
    qed
  qed
qed

lemma findIndex_lt: "findIndex P xs = Some m \<Longrightarrow> m < length xs"
  by (simp add: findIndex_Some_iff)

lemma length_writeBack [simp]: "length (writeBack k pts) = length pts"
  by (simp add: writeBack_def split: option.split)

lemma length_fold_writeBack [simp]: "length (fold writeBack ks pts) = length pts"
  by (induction ks arbitrary: pts) simp_all

lemma length_fold_update [simp]:
  "length (fold (\<lambda>i ps. ps[g i := h i ps]) is ps) = length ps"
  by (induction "is" arbitrary: ps) simp_all

lemma length_smoothSegmentPoints [simp]:
  "length (smoothSegmentPoints pts) = length pts"
  by (simp add: smoothSegmentPoints_def Let_def)

lemma px_writeBack [simp]: "map px (writeBack k pts) = map px pts"
  by (auto simp: writeBack_def map_update list_eq_iff_nth_eq nth_list_update
           split: option.split dest: findIndex_lt)

lemma px_fold_writeBack [simp]: "map px (fold writeBack ks pts) = map px pts"
  by (induction ks arbitrary: pts) simp_all

lemma px_fold_update:
  "(\<And>i ps. px (h i ps) = px (ps ! g i)) \<Longrightarrow>
   map px (fold (\<lambda>i ps. ps[g i := h i ps]) is ps) = map px ps"
proof (induction "is" arbitrary: ps)
  case Nil
  then show ?case by simp
next
  case (Cons a "is")
  have "px (ps[g a := h a ps] ! i) = px (ps ! i)" if "i < length ps" for i
    using that Cons.prems by (cases "g a = i") auto
  then have "map px (ps[g a := h a ps]) = map px ps"
    by (simp add: list_eq_iff_nth_eq)
  with Cons show ?case by simp
qed

lemma px_smoothSegmentPoints [simp]:
  "map px (smoothSegmentPoints pts) = map px pts"
  by (simp add: smoothSegmentPoints_def Let_def px_fold_update)

lemma previousEndHeight_cong:
  "terrainMeshes A = terrainMeshes B \<Longrightarrow> previousEndHeight A = previousEndHeight B"
  by (simp add: previousEndHeight_def)

lemma terrainMeshes_selectChunkType [simp]:
  "terrainMeshes (snd (selectChunkType d T)) = terrainMeshes T"
  by (rule rest_simps(2)) simp

lemma createTerrainSegment_Inl:
  assumes "createTerrainSegment ext start T = (Inl e, T')"
  shows "terrainMeshes T' = terrainMeshes T" and "previousEndHeight T = Inl e"
    and "T' = snd (selectChunkType (min 0.99 (max 0 (\<bar>start\<bar> / 5000))) T)"
proof -
  define d where "d = min 0.99 (max 0 (\<bar>start\<bar> / 5000))"
  obtain c T1 where sel: "selectChunkType d T = (c, T1)"
    by (cases "selectChunkType d T")
  have tm: "terrainMeshes T1 = terrainMeshes T"
    using terrainMeshes_selectChunkType[of d T] sel by simp
  from assms have *: "previousEndHeight T1 = Inl e \<and> T' = T1"
    unfolding createTerrainSegment_def Let_def d_def[symmetric] sel prod.case
    by (cases "previousEndHeight T1") auto
  with tm show "terrainMeshes T' = terrainMeshes T" and "previousEndHeight T = Inl e"
    using previousEndHeight_cong[OF tm] by simp_all
  from * sel show "T' = snd (selectChunkType (min 0.99 (max 0 (\<bar>start\<bar> / 5000))) T)"
    unfolding d_def by simp
qed

lemma createTerrainSegment_Inr:
  assumes "createTerrainSegment ext start T = (Inr seg, T')"
  shows "terrainMeshes T' = terrainMeshes T @ [seg]" and "startX seg = start"
    and "\<exists>pts. points seg = Some pts \<and> length pts = nbPoints"
    and "\<exists>prevEnd. previousEndHeight T = Inr prevEnd"
proof -
  define d where "d = min 0.99 (max 0 (\<bar>start\<bar> / 5000))"
  obtain c T1 where sel: "selectChunkType d T = (c, T1)"
    by (cases "selectChunkType d T")
  have tm: "terrainMeshes T1 = terrainMeshes T"
    using terrainMeshes_selectChunkType[of d T] sel by simp
  from assms obtain prevEnd where pe: "previousEndHeight T1 = Inr prevEnd"
    unfolding createTerrainSegment_def Let_def d_def[symmetric] sel prod.case
    by (auto split: sum.splits)
  define pts where "pts = smoothSegmentPoints (map (samplePoint T1 c start d prevEnd) [0..<nbPoints])"
  define T3 where "T3 = addTerrainDecorations ext start pts c
      (createBackgroundPhysics ext pts
         (T1\<lparr>world := call ext (BuildSegment (seed T1)
              \<lparr>startX = start, points = Some pts, chunkType = c\<rparr>) (world T1)\<rparr>))"
  have r3: "rest T3 = rest T1" by (simp add: T3_def) (simp add: rest_def)
  from assms have seg: "seg = \<lparr>startX = start, points = Some pts, chunkType = c\<rparr>"
    and T': "T' = T3\<lparr>terrainMeshes := terrainMeshes T3 @ [seg]\<rparr>"
    unfolding createTerrainSegment_def Let_def d_def[symmetric] sel prod.case pe sum.case
      pts_def[symmetric] T3_def[symmetric]
    by auto
  from T' rest_simps(2)[OF r3] tm show "terrainMeshes T' = terrainMeshes T @ [seg]" by simp
  from seg show "startX seg = start" by simp
  from seg show "\<exists>pts. points seg = Some pts \<and> length pts = nbPoints"
    by (simp add: pts_def)
  from pe previousEndHeight_cong[OF tm] show "\<exists>prevEnd. previousEndHeight T = Inr prevEnd"
    by simp
qed

lemma dedupe_distinct:
  "distinct (map startX u) \<Longrightarrow> P = set (map startX u) \<Longrightarrow>
   distinct (map startX (fst (dedupe ext xs u P w))) \<and>
   set (map startX (fst (dedupe ext xs u P w))) = set (map startX u) \<union> set (map startX xs)"
proof (induction xs arbitrary: u P w)
  case Nil
  then show ?case by simp
next
  case (Cons s rest)
  show ?case
  proof (cases "startX s \<in> P")
    case True
    with Cons.IH[of u P "call ext (RemoveSegment s) w"] Cons.prems show ?thesis by auto
  next
    case False
    with Cons.IH[of "u @ [s]" "insert (startX s) P" w] Cons.prems show ?thesis by auto
  qed
qed

lemma storeInv_createTerrainSegment:
  assumes "storeInv E T" and "start \<notin> E" and "createTerrainSegment ext start T = (r, T')"
  shows "storeInv (case r of Inl e \<Rightarrow> E | Inr seg \<Rightarrow> insert start E) T'"
proof (cases r)
  case (Inl e)
  with assms createTerrainSegment_Inl(1)[of ext start T e T'] show ?thesis
    by (simp add: storeInv_def)
next
  case (Inr seg)
  with assms createTerrainSegment_Inr(1,2)[of ext start T seg T'] show ?thesis
    by (auto simp: storeInv_def)
qed

lemma storeInv_generateAhead:
  assumes "generateAhead ext cur E T = Some r" and "storeInv E T"
  shows "storeInv (fst r) (snd r)"
proof -
  have "storeInv E T \<longrightarrow> storeInv (fst r) (snd r)"
  proof (rule generateAhead.raw_induct
      [where P = "\<lambda>ext cur E T r. storeInv E T \<longrightarrow> storeInv (fst r) (snd r)",
        OF _ assms(1)], goal_cases)
    case (1 ga ext cur E T r)
    define nextStartX where "nextStartX =
       (if length (terrainMeshes T) > 0 then startX (last (terrainMeshes T)) + segmentWidth else 0)"
    define lastIdx where "lastIdx = (if length (terrainMeshes T) > 0
               then \<lfloor>startX (last (terrainMeshes T)) / segmentWidth\<rfloor> else - 1)"
    note body = 1(2)[unfolded Let_def, folded nextStartX_def lastIdx_def]
    show ?case
    proof
      assume inv: "storeInv E T"
      show "storeInv (fst r) (snd r)"
      proof (cases "aheadReached lastIdx cur")
        case True
        with body inv show ?thesis by auto
      next
        case nr: False
        show ?thesis
        proof (cases "nextStartX \<in> E")
          case True
          with nr body have "ga ext cur E T = Some r" by simp
          from 1(1)[OF this] inv show ?thesis by simp
        next
          case False
          obtain res T' where c: "createTerrainSegment ext nextStartX T = (res, T')"
            by (cases "createTerrainSegment ext nextStartX T")
          from storeInv_createTerrainSegment[OF inv False c]
          have inv': "storeInv (case res of Inl e \<Rightarrow> E | Inr seg \<Rightarrow> insert nextStartX E) T'" .
          show ?thesis
          proof (cases res)
            case (Inl e)
            with nr False body c have "r = (E, T')" by auto
            with inv' Inl show ?thesis by simp
          next
            case (Inr seg)
            with nr False body c have "ga ext cur (insert nextStartX E) T' = Some r"
              by simp
            from 1(1)[OF this] inv' Inr show ?thesis by simp
          qed
        qed
      qed
    qed
  qed
  with assms(2) show ?thesis by simp
qed

lemma storeInv_evictBehind:
  "storeInv E T \<Longrightarrow> storeInv (fst (evictBehind ext cur E T)) (snd (evictBehind ext cur E T))"
proof (induction ext cur E T rule: evictBehind.induct)
  case (1 ext cur E T)
  show ?case
  proof (cases "int (length (terrainMeshes T)) > segmentsAhead + segmentsBehind \<and> behindPassed cur
        \<and> farBehind \<lfloor>startX (hd (terrainMeshes T)) / segmentWidth\<rfloor> cur")
    case True
    then have ne: "terrainMeshes T \<noteq> []"
      by (auto simp: segmentsAhead_def segmentsBehind_def)
    then obtain f tl' where ft: "terrainMeshes T = f # tl'" by (cases "terrainMeshes T") auto
    let ?T' = "T\<lparr>terrainMeshes := tl (terrainMeshes T),
                  world := call ext (RemoveSegment (hd (terrainMeshes T))) (world T)\<rparr>"
    have inv': "storeInv (E - {startX (hd (terrainMeshes T))}) ?T'"
    proof -
      from 1(2) ft have d: "distinct (map startX (f # tl'))"
        and sub: "set (map startX (f # tl')) \<subseteq> E"
        by (simp_all add: storeInv_def)
      from d have nin: "startX f \<notin> set (map startX tl')" and d': "distinct (map startX tl')"
        by simp_all
      from sub have "set (map startX tl') \<subseteq> E" by simp
      with nin have "set (map startX tl') \<subseteq> E - {startX f}" by blast
      with d' ft show ?thesis by (simp add: storeInv_def)
    qed
    have "evictBehind ext cur E T = evictBehind ext cur (E - {startX (hd (terrainMeshes T))}) ?T'"
      using True by (subst evictBehind.simps) (simp add: Let_def)
    moreover have "storeInv (fst (evictBehind ext cur (E - {startX (hd (terrainMeshes T))}) ?T'))
                     (snd (evictBehind ext cur (E - {startX (hd (terrainMeshes T))}) ?T'))"
      using True 1(1)[OF _ refl refl _ inv'] by simp
    ultimately show ?thesis by simp
  next
    case False
    then have "evictBehind ext cur E T = (E, T)"
      by (subst evictBehind.simps) (auto simp: Let_def)
    with 1(2) show ?thesis by simp
  qed
qed

lemma terrainMeshes_finishTick [simp]:
  "terrainMeshes (finishTick ext x i c T) = terrainMeshes T"
  by (simp add: finishTick_def)

lemma distinct_selfHeal:
  assumes "storeInv E T"
  shows "distinct (map startX (terrainMeshes (tickTerrain (selfHeal ext tracked c E T))))"
proof (cases tracked)
  case (Finite x)
  define start where "start = real_of_int \<lfloor>x / segmentWidth\<rfloor> * segmentWidth"
  obtain res T' where c: "createTerrainSegment ext start T = (res, T')"
    by (cases "createTerrainSegment ext start T")
  show ?thesis
  proof (cases "\<not> list_ex (\<lambda>s. covers s x) (terrainMeshes T) \<and> start \<notin> E")
    case True
    from storeInv_createTerrainSegment[OF assms _ c] True
    have "distinct (map startX (terrainMeshes T'))" by (simp add: storeInv_def)
    with True Finite c show ?thesis
      by (cases res) (simp_all add: selfHeal_def Let_def start_def[symmetric])
  next
    case False
    with Finite assms show ?thesis
      by (auto simp: selfHeal_def Let_def start_def[symmetric] storeInv_def)
  qed
qed (use assms in \<open>simp_all add: selfHeal_def storeInv_def\<close>)

lemma update_early_return:
  "trackedIndex vehiclePosition = None \<Longrightarrow> update ext vehiclePosition T = Some (Ticked T)"
  by (simp add: update_def)

lemma trackedIndex_None_iff:
  "trackedIndex v = None \<longleftrightarrow>
     v = NoPosition \<or> v = Position XOther \<or> v = Position (XNumber NaN) \<or>
     v = Position (XNumber NegInf) \<or>
     (\<exists>x. v = Position (XNumber (Finite x)) \<and> \<lfloor>x / segmentWidth\<rfloor> < 0)"
  by (auto simp: trackedIndex_def Let_def split: vpos.splits xval.splits jsnum.splits)

lemma previousEndHeight_hasPoints:
  "list_all hasPoints (terrainMeshes T) \<Longrightarrow> \<exists>pe. previousEndHeight T = Inr pe"
proof (cases "terrainMeshes T = []")
  case True
  then show ?thesis by (simp add: previousEndHeight_def)
next
  case False
  assume "list_all hasPoints (terrainMeshes T)"
  with False have "hasPoints (last (terrainMeshes T))"
    by (simp add: list_all_iff)
  with False show ?thesis
    by (auto simp: previousEndHeight_def hasPoints_def split: option.splits)
qed

lemma hasPoints_createTerrainSegment:
  assumes "list_all hasPoints (terrainMeshes T)"
    and "createTerrainSegment ext start T = (r, T')"
  shows "list_all hasPoints (terrainMeshes T')" and "\<exists>seg. r = Inr seg"
proof -
  from previousEndHeight_hasPoints[OF assms(1)] obtain pe where pe: "previousEndHeight T = Inr pe" ..
  show r: "\<exists>seg. r = Inr seg"
  proof (cases r)
    case (Inl e)
    with createTerrainSegment_Inl(2)[of ext start T e T'] assms(2) pe show ?thesis by simp
  qed simp
  then obtain seg where seg: "r = Inr seg" ..
  from createTerrainSegment_Inr(1,3)[of ext start T seg T'] assms(2) seg
  obtain pts where "terrainMeshes T' = terrainMeshes T @ [seg]" "points seg = Some pts"
    "length pts = nbPoints" by auto
  with assms(1) show "list_all hasPoints (terrainMeshes T')"
    by (auto simp: hasPoints_def nbPoints_def)
qed

lemma generateAhead_Beyond:
  assumes "list_all hasPoints (terrainMeshes T)"
  shows "generateAhead ext Beyond E T = None"
proof (rule ccontr)
  assume "generateAhead ext Beyond E T \<noteq> None"
  then obtain r where g: "generateAhead ext Beyond E T = Some r" by auto
  have "Beyond = Beyond \<and> list_all hasPoints (terrainMeshes T) \<longrightarrow> False"
  proof (rule generateAhead.raw_induct
      [where P = "\<lambda>ext cur E T r. cur = Beyond \<and> list_all hasPoints (terrainMeshes T) \<longrightarrow> False",
        OF _ g], goal_cases)
    case (1 ga ext cur E T r)
    define nextStartX where "nextStartX =
       (if length (terrainMeshes T) > 0 then startX (last (terrainMeshes T)) + segmentWidth else 0)"
    note body = 1(2)[unfolded Let_def, folded nextStartX_def]
    show ?case
    proof
      assume a: "cur = Beyond \<and> list_all hasPoints (terrainMeshes T)"
      show False
      proof (cases "nextStartX \<in> E")
        case True
        with a body have "ga ext cur E T = Some r" by simp
        from 1(1)[OF this] a show False by simp
      next
        case False
        obtain res T' where c: "createTerrainSegment ext nextStartX T = (res, T')"
          by (cases "createTerrainSegment ext nextStartX T")
        from hasPoints_createTerrainSegment[OF _ c] a
        obtain seg where res: "res = Inr seg" and hp: "list_all hasPoints (terrainMeshes T')"
          by auto
        with a False body c have "ga ext cur (insert nextStartX E) T' = Some r" by simp
        from 1(1)[OF this] a hp show False by simp
      qed
    qed
  qed
  with assms show False by simp
qed

lemma hasPoints_dedupe:
  "list_all hasPoints xs \<Longrightarrow> list_all hasPoints u \<Longrightarrow>
   list_all hasPoints (fst (dedupe ext xs u P w))"
  by (induction xs arbitrary: u P w) simp_all

lemma update_PosInf_never_returns:
  assumes "list_all hasPoints (terrainMeshes T)"
  shows "update ext (Position (XNumber PosInf)) T = None"
proof -
  obtain u w where d: "dedupe ext (terrainMeshes T) [] {} (world T) = (u, w)"
    by (cases "dedupe ext (terrainMeshes T) [] {} (world T)")
  from hasPoints_dedupe[OF assms, of "[]" ext "{}" "world T"] d
  have "list_all hasPoints (terrainMeshes (T\<lparr>terrainMeshes := u, world := w\<rparr>))" by simp
  from generateAhead_Beyond[OF this] d show ?thesis
    by (simp add: update_def trackedIndex_def Let_def)
qed

lemma hasPoints_buildAll:
  "list_all hasPoints (terrainMeshes T) \<Longrightarrow>
   \<exists>T'. buildAll ext xs T = Inr T' \<and> list_all hasPoints (terrainMeshes T')"
proof (induction xs arbitrary: T)
  case Nil
  then show ?case by simp
next
  case (Cons x xs)
  obtain r T1 where c: "createTerrainSegment ext x T = (r, T1)"
    by (cases "createTerrainSegment ext x T")
  from hasPoints_createTerrainSegment[OF Cons.prems c]
  obtain seg where "r = Inr seg" and "list_all hasPoints (terrainMeshes T1)" by auto
  with Cons.IH[of T1] c show ?case by simp
qed

lemma newTerrain_returns:
  "\<exists>T. newTerrain ext w s = Inr T \<and> list_all hasPoints (terrainMeshes T)"
  unfolding newTerrain_def initialize_def Let_def
  by (rule hasPoints_buildAll) simp

lemma fold_update_other:
  "k \<notin> g ` set is \<Longrightarrow> (fold (\<lambda>i ps. ps[g i := h i (ps ! g i)]) is ps) ! k = ps ! k"
  by (induction "is" arbitrary: ps) auto

lemma fold_update_hit:
  "distinct (map g is) \<Longrightarrow> i \<in> set is \<Longrightarrow> g i < length ps \<Longrightarrow>
   (fold (\<lambda>i ps. ps[g i := h i (ps ! g i)]) is ps) ! g i = h i (ps ! g i)"
proof (induction "is" arbitrary: ps)
  case Nil
  then show ?case by simp
next
  case (Cons a "is")
  show ?case
  proof (cases "i = a")
    case True
    with Cons.prems have "g a \<notin> g ` set is" by auto
    from fold_update_other[OF this, of h "ps[g a := h a (ps ! g a)]"] True Cons.prems
    show ?thesis by simp
  next
    case False
    with Cons.prems have i: "i \<in> set is" by auto
    from Cons.prems have "g a \<notin> g ` set is" by auto
    with i have ne: "g i \<noteq> g a" by (metis imageI)
    from Cons.IH[of "ps[g a := h a (ps ! g a)]"] Cons.prems i ne show ?thesis by simp
  qed
qed

lemma validIndices_props:
  "distinct (validIndices pts)"
  "set (validIndices pts) = {k. k < length pts \<and> height (pts ! k) \<noteq> None}"
  by (auto simp: validIndices_def)

lemma findIndex_distinct:
  assumes "distinct (map f xs)" and "k < length xs"
  shows "findIndex (\<lambda>p. f p = f (xs ! k)) xs = Some k"
proof -
  have "\<forall>j<k. f (xs ! j) \<noteq> f (xs ! k)"
    using assms by (auto simp: distinct_conv_nth)
  with assms(2) show ?thesis by (simp add: findIndex_Some_iff)
qed

lemma writeBack_distinct:
  assumes "distinct (map px ps)" and "k < length ps"
  shows "writeBack k ps =
     ps[k := (if height (ps ! k) \<noteq> None then (ps ! k)\<lparr>height := py (ps ! k)\<rparr> else ps ! k)]"
  using findIndex_distinct[OF assms, of ] assms(2)
  by (simp add: writeBack_def)

lemma fold_writeBack_distinct:
  assumes "distinct (map px ps)" and "\<forall>k\<in>set ks. k < length ps"
  shows "fold writeBack ks ps =
         fold (\<lambda>k ps. ps[k := (if height (ps ! k) \<noteq> None
                                    then (ps ! k)\<lparr>height := py (ps ! k)\<rparr> else ps ! k)]) ks ps"
  using assms
proof (induction ks arbitrary: ps)
  case Nil
  then show ?case by simp
next
  case (Cons k ks)
  let ?ps' = "ps[k := (if height (ps ! k) \<noteq> None then (ps ! k)\<lparr>height := py (ps ! k)\<rparr> else ps ! k)]"
  from Cons.prems have wb: "writeBack k ps = ?ps'" by (simp add: writeBack_distinct)
  have "map px ?ps' = map px (writeBack k ps)" by (simp add: wb)
  then have d: "distinct (map px ?ps')" using Cons.prems(1) by simp
  from Cons.IH[OF d] Cons.prems(2) wb show ?case by simp
qed

lemma smoothSegmentPoints_small:
  "length (validIndices pts) < 5 \<Longrightarrow> smoothSegmentPoints pts = pts"
  by (simp add: smoothSegmentPoints_def Let_def)

lemma length_validIndices_le: "length (validIndices pts) \<le> length pts"
  unfolding validIndices_def
  by (metis diff_zero length_filter_le length_upt)

text \<open>The two loops, sample by sample.\<close>

lemma smoothSegmentPoints_nth:
  assumes dist: "distinct (map px pts)"
    and n5: "5 \<le> length (validIndices pts)"
    and k: "k < length pts"
  shows "smoothSegmentPoints pts ! k =
     (if height (pts ! k) = None then pts ! k
      else (let valid = validIndices pts;
                i = the (findIndex (\<lambda>j. j = k) valid);
                y = (if halfWindow \<le> i \<and> i < length valid - halfWindow
                     then Some (smoothedY (map (\<lambda>k. py (pts ! k)) valid) i)
                     else py (pts ! k))
            in (pts ! k)\<lparr>py := y, height := y\<rparr>))"
proof -
  define valid where "valid = validIndices pts"
  define oh where "oh = map (\<lambda>k. py (pts ! k)) valid"
  define h1 where "h1 = (\<lambda>i (p::sample). p\<lparr>py := Some (smoothedY oh i)\<rparr>)"
  define h2 where "h2 = (\<lambda>(k::nat) (p::sample). if height p \<noteq> None then p\<lparr>height := py p\<rparr> else p)"
  define mid where "mid = [halfWindow ..< length valid - halfWindow]"
  define ps1 where "ps1 = fold (\<lambda>i ps. ps[(\<lambda>i. valid ! i) i := h1 i (ps ! (\<lambda>i. valid ! i) i)]) mid pts"
  have len5: "\<not> length pts < 5" using n5 length_validIndices_le[of pts] by simp
  have vd: "distinct valid" and vs: "set valid = {k. k < length pts \<and> height (pts ! k) \<noteq> None}"
    by (simp_all add: valid_def validIndices_props)
  have l1: "length ps1 = length pts" by (simp add: ps1_def)
  have px1: "map px ps1 = map px pts"
    unfolding ps1_def by (rule px_fold_update) (simp add: h1_def)
  have s1: "smoothSegmentPoints pts = fold writeBack valid ps1"
    using len5 n5
    by (simp add: smoothSegmentPoints_def Let_def valid_def[symmetric] oh_def[symmetric]
        ps1_def h1_def mid_def)
  have "\<forall>k\<in>set valid. k < length ps1" using vs l1 by simp
  from fold_writeBack_distinct[OF _ this] dist px1
  have s2: "fold writeBack valid ps1 =
            fold (\<lambda>k ps. ps[(\<lambda>k. k) k := h2 k (ps ! (\<lambda>k. k) k)]) valid ps1"
    by (simp add: h2_def)
  have dmid: "distinct (map (\<lambda>i. valid ! i) mid)"
    using vd unfolding mid_def
    by (auto simp: distinct_map inj_on_def nth_eq_iff_index_eq)
  show ?thesis
  proof (cases "height (pts ! k) = None")
    case True
    then have nk: "k \<notin> set valid" using vs by simp
    then have "k \<notin> (\<lambda>k. k) ` set valid" by simp
    from fold_update_other[OF this, of h2 ps1] s1 s2
    have a: "smoothSegmentPoints pts ! k = ps1 ! k" by simp
    have "k \<notin> (\<lambda>i. valid ! i) ` set mid"
      using nk unfolding mid_def by (auto simp: halfWindow_def windowSize_def)
    from fold_update_other[OF this, of h1 pts] have "ps1 ! k = pts ! k" by (simp add: ps1_def)
    with a True show ?thesis by simp
  next
    case False
    with k vs have kv: "k \<in> set valid" by simp
    then obtain i where i: "i < length valid" "valid ! i = k" by (auto simp: in_set_conv_nth)
    have fi: "findIndex (\<lambda>j. j = k) valid = Some i"
      using i vd by (auto simp: findIndex_Some_iff nth_eq_iff_index_eq)
    from fold_update_hit[of "\<lambda>k. k" valid k ps1 h2] vd kv k l1 s1 s2
    have a: "smoothSegmentPoints pts ! k = h2 k (ps1 ! k)" by simp
    show ?thesis
    proof (cases "halfWindow \<le> i \<and> i < length valid - halfWindow")
      case True
      then have "i \<in> set mid" by (simp add: mid_def)
      from fold_update_hit[OF dmid this, of pts h1] i k
      have "ps1 ! k = h1 i (pts ! k)" by (simp add: ps1_def)
      with a False True fi show ?thesis
        by (auto simp: h1_def h2_def Let_def valid_def[symmetric] oh_def[symmetric])
    next
      case nm: False
      have "k \<notin> (\<lambda>i. valid ! i) ` set mid"
      proof
        assume "k \<in> (\<lambda>i. valid ! i) ` set mid"
        then obtain j where j: "j \<in> set mid" "valid ! j = k" by auto
        then have "j < length valid" by (auto simp: mid_def)
        with i j vd have "j = i" by (metis nth_eq_iff_index_eq)
        with j nm show False by (simp add: mid_def)
      qed
      from fold_update_other[OF this, of h1 pts] have "ps1 ! k = pts ! k" by (simp add: ps1_def)
      with a False nm fi show ?thesis
        by (auto simp: h2_def Let_def valid_def[symmetric] oh_def[symmetric])
    qed
  qed
qed

lemma windowSum_weights:
  "2 \<le> i \<Longrightarrow> windowSum oh i =
     numOf (oh ! (i - 2)) * (1 / 3) + numOf (oh ! (i - 1)) * (2 / 3) + numOf (oh ! i) +
     numOf (oh ! (i + 1)) * (2 / 3) + numOf (oh ! (i + 2)) * (1 / 3)"
proof -
  assume i: "2 \<le> i"
  have u: "[- 1 .. 2 :: int] = [- 1, 0, 1, 2]" by (simp add: upto.simps)
  have n: "nat (int i - 2) = i - 2" "nat (int i - 1) = i - 1" "nat (int i + 1) = i + 1"
    "nat (int i + 2) = i + 2" using i by simp_all
  show ?thesis
    by (simp add: windowSum_def halfWindow_def windowSize_def u n)
qed

lemma validIndices_nth:
  assumes "i < length (validIndices pts)"
  shows "validIndices pts ! i < length pts" and "height (pts ! (validIndices pts ! i)) \<noteq> None"
    and "findIndex (\<lambda>j. j = validIndices pts ! i) (validIndices pts) = Some i"
proof -
  from assms have "validIndices pts ! i \<in> set (validIndices pts)" by simp
  then show "validIndices pts ! i < length pts"
    and "height (pts ! (validIndices pts ! i)) \<noteq> None"
    by (simp_all add: validIndices_props)
  from assms validIndices_props(1)[of pts]
  show "findIndex (\<lambda>j. j = validIndices pts ! i) (validIndices pts) = Some i"
    by (auto simp: findIndex_Some_iff nth_eq_iff_index_eq)
qed

lemma samplePoint_px:
  "px (samplePoint T c start d pe i) = start + real i * 40 / 29"
  by (simp add: samplePoint_def Let_def nbPoints_def segmentWidth_def)

lemma gapWidth_bounds: "0 \<le> d \<Longrightarrow> 3 \<le> gapWidth d \<and> gapWidth d \<le> 5"
  by (auto simp: gapWidth_def min_def)

lemma generateGap_None_iff:
  assumes "start \<le> endX"
  shows "generateGap T x start endX d = None \<longleftrightarrow>
         gapStart start endX d \<le> x \<and> x < gapEnd start endX d"
proof -
  from assms have "gapStart start endX d - (endX - start) * 0.15 \<le> gapStart start endX d"
    by simp
  then have "x < gapStart start endX d - (endX - start) * 0.15 \<Longrightarrow> x < gapStart start endX d"
    by linarith
  then show ?thesis
    unfolding generateGap_def Let_def by auto
qed

lemma gap_window_segment:
  "gapStart start (start + segmentWidth) d = start + 20 - gapWidth d / 2"
  "gapEnd start (start + segmentWidth) d = start + 20 + gapWidth d / 2"
  by (simp_all add: gapStart_def gapEnd_def segmentWidth_def field_simps)

lemma samplePoint_isGap_iff:
  "(real i / (real nbPoints - 1) > 0.3 \<and> real i / (real nbPoints - 1) < 0.7) \<longleftrightarrow> (9 \<le> i \<and> i \<le> 20)"
  by (auto simp: nbPoints_def)

lemma samplePoint_height_Gap:
  assumes "0 \<le> d"
  shows "height (samplePoint T Gap start d pe i) = None \<longleftrightarrow> 9 \<le> i \<and> i \<le> 20"
proof (cases "9 \<le> i \<and> i \<le> 20")
  case True
  then have "real i / (real nbPoints - 1) > 0.3 \<and> real i / (real nbPoints - 1) < 0.7"
    using samplePoint_isGap_iff[of i] by blast
  with True show ?thesis by (simp add: samplePoint_def Let_def)
next
  case False
  then have ng: "\<not> (real i / (real nbPoints - 1) > 0.3 \<and> real i / (real nbPoints - 1) < 0.7)"
    using samplePoint_isGap_iff[of i] by blast
  define x where "x = start + (real i / (real nbPoints - 1)) * segmentWidth"
  from gapWidth_bounds[OF assms] have gw: "3 \<le> gapWidth d" "gapWidth d \<le> 5" by simp_all
  have "\<not> (gapStart start (start + segmentWidth) d \<le> x \<and> x < gapEnd start (start + segmentWidth) d)"
  proof (cases "i \<le> 8")
    case True
    then have "real i \<le> 8" by simp
    then have "x \<le> start + 8 * 40 / 29" by (simp add: x_def nbPoints_def segmentWidth_def)
    with gw have "x < gapStart start (start + segmentWidth) d"
      by (simp add: gap_window_segment)
    then show ?thesis by simp
  next
    case F: False
    with False have "21 \<le> i" by simp
    then have "21 \<le> real i" by simp
    then have "start + 21 * 40 / 29 \<le> x" by (simp add: x_def nbPoints_def segmentWidth_def)
    with gw have "gapEnd start (start + segmentWidth) d \<le> x"
      by (simp add: gap_window_segment)
    then show ?thesis by simp
  qed
  then have "generateGap T x start (start + segmentWidth) d \<noteq> None"
    by (simp add: generateGap_None_iff segmentWidth_def)
  then have "generateChunk T Gap x start d \<noteq> None" by (simp add: generateChunk_def)
  with ng False show ?thesis
    unfolding samplePoint_def Let_def x_def[symmetric] by auto
qed

lemma samplePoint_py_height:
  "height (samplePoint T c start d pe i) \<noteq> None \<Longrightarrow>
   py (samplePoint T c start d pe i) = height (samplePoint T c start d pe i)"
  by (auto simp: samplePoint_def Let_def split: if_splits)

lemma createTerrainSegment_points:
  assumes "createTerrainSegment ext start T = (Inr seg, T')"
  defines "d \<equiv> min 0.99 (max 0 (\<bar>start\<bar> / 5000))"
  shows "\<exists>pe. previousEndHeight T = Inr pe \<and>
           seg = \<lparr>startX = start,
                  points = Some (smoothSegmentPoints
                     (map (samplePoint (snd (selectChunkType d T)) (fst (selectChunkType d T))
                            start d pe) [0..<nbPoints])),
                  chunkType = fst (selectChunkType d T)\<rparr>"
proof -
  obtain c T1 where sel: "selectChunkType d T = (c, T1)"
    by (cases "selectChunkType d T")
  have tm: "terrainMeshes T1 = terrainMeshes T"
    using terrainMeshes_selectChunkType[of d T] sel by simp
  from assms(1) obtain prevEnd where pe: "previousEndHeight T1 = Inr prevEnd"
    unfolding createTerrainSegment_def Let_def d_def[symmetric] sel prod.case
    by (auto split: sum.splits)
  from assms(1) have "seg = \<lparr>startX = start,
      points = Some (smoothSegmentPoints (map (samplePoint T1 c start d prevEnd) [0..<nbPoints])),
      chunkType = c\<rparr>"
    unfolding createTerrainSegment_def Let_def d_def[symmetric] sel prod.case pe sum.case
    by auto
  with pe previousEndHeight_cong[OF tm] sel show ?thesis by simp
qed

lemma distinct_px_samples:
  "distinct (map px (map (samplePoint T c start d pe) [0..<n]))"
proof -
  have "inj_on (\<lambda>i. px (samplePoint T c start d pe i)) (set [0..<n])"
    by (auto simp: inj_on_def samplePoint_px)
  then show ?thesis by (simp add: distinct_map comp_def)
qed

lemma smooth_height_None_iff:
  assumes "distinct (map px pts)"
    and "\<forall>p\<in>set pts. height p \<noteq> None \<longrightarrow> py p = height p"
    and "k < length pts"
  shows "height (smoothSegmentPoints pts ! k) = None \<longleftrightarrow> height (pts ! k) = None"
proof (cases "length (validIndices pts) < 5")
  case True
  then show ?thesis by (simp add: smoothSegmentPoints_small)
next
  case False
  from assms(2,3) have "height (pts ! k) \<noteq> None \<longrightarrow> py (pts ! k) \<noteq> None"
    by (metis nth_mem)
  with smoothSegmentPoints_nth[OF assms(1) _ assms(3)] False show ?thesis
    by (auto simp: Let_def)
qed

lemma gap_segment_holes:
  assumes "createTerrainSegment ext start T = (Inr seg, T')" and "chunkType seg = Gap"
  shows "\<exists>pts. points seg = Some pts \<and> length pts = 30 \<and> startX seg = start \<and>
           (\<forall>k<30. height (pts ! k) = None \<longleftrightarrow> 9 \<le> k \<and> k \<le> 20)"
proof -
  define d :: real where "d = min 0.99 (max 0 (\<bar>start\<bar> / 5000))"
  have d0: "0 \<le> d" by (simp add: d_def)
  from createTerrainSegment_points[OF assms(1), folded d_def] obtain pe where
    seg: "seg = \<lparr>startX = start,
                  points = Some (smoothSegmentPoints
                     (map (samplePoint (snd (selectChunkType d T)) (fst (selectChunkType d T))
                            start d pe) [0..<nbPoints])),
                  chunkType = fst (selectChunkType d T)\<rparr>" by blast
  define T1 where "T1 = snd (selectChunkType d T)"
  define raw where "raw = map (samplePoint T1 Gap start d pe) [0..<nbPoints]"
  from seg assms(2) have c: "fst (selectChunkType d T) = Gap" by simp
  from seg c have p: "points seg = Some (smoothSegmentPoints raw)" and sx: "startX seg = start"
    by (simp_all add: raw_def T1_def)
  have dist: "distinct (map px raw)" unfolding raw_def by (rule distinct_px_samples)
  have ph: "\<forall>p\<in>set raw. height p \<noteq> None \<longrightarrow> py p = height p"
  proof (intro ballI impI)
    fix p assume "p \<in> set raw" and h: "height p \<noteq> None"
    then obtain i where "p = samplePoint T1 Gap start d pe i" by (auto simp: raw_def)
    with h show "py p = height p" using samplePoint_py_height by blast
  qed
  have len: "length raw = 30" by (simp add: raw_def nbPoints_def)
  have "height (smoothSegmentPoints raw ! k) = None \<longleftrightarrow> 9 \<le> k \<and> k \<le> 20" if "k < 30" for k
  proof -
    from that len have k: "k < length raw" by simp
    from that have "raw ! k = samplePoint T1 Gap start d pe k"
      by (simp add: raw_def nbPoints_def)
    with smooth_height_None_iff[OF dist ph k] samplePoint_height_Gap[OF d0, of T1 start pe k]
    show ?thesis by simp
  qed
  with p sx len show ?thesis by simp
qed

lemma heightInSegment_Null_iff:
  assumes "points s = Some pts" and "length pts = 30" and "covers s x"
  shows "heightInSegment s x = Null \<longleftrightarrow>
         height (pts ! nat \<lfloor>(x - startX s) / segmentWidth * 29\<rfloor>) = None"
proof -
  define r where "r = (x - startX s) / segmentWidth * 29"
  define idx where "idx = nat \<lfloor>r\<rfloor>"
  from assms(3) have "r < 29"
    by (simp add: r_def covers_def segmentWidth_def)
  then have "\<lfloor>r\<rfloor> < 29" by (simp add: floor_less_iff)
  then have i: "idx < 29" unfolding idx_def by linarith
  have "heightInSegment s x =
      (if idx < 30 \<and> height (pts ! idx) = None then Null
       else if idx < 29 then
         Num (numOf (py (pts ! idx)) *
                (1 - cubicInterpolation
                   ((x - (startX s + (real idx / 29) * segmentWidth)) /
                    (startX s + ((real idx + 1) / 29) * segmentWidth -
                     (startX s + (real idx / 29) * segmentWidth)))) +
              numOf (py (pts ! (idx + 1))) *
                cubicInterpolation
                   ((x - (startX s + (real idx / 29) * segmentWidth)) /
                    (startX s + ((real idx + 1) / 29) * segmentWidth -
                     (startX s + (real idx / 29) * segmentWidth))))
       else jsOf (py (pts ! idx)))"
    unfolding heightInSegment_def Let_def assms(1) option.case assms(2)
    by (simp add: idx_def r_def)
  with i show ?thesis by (simp add: idx_def r_def)
qed

lemma nat_floor_range:
  "0 \<le> r \<Longrightarrow> (9 \<le> nat \<lfloor>r\<rfloor> \<and> nat \<lfloor>r\<rfloor> \<le> 20) \<longleftrightarrow> (9 \<le> r \<and> r < (21::real))"
proof -
  assume "0 \<le> r"
  then have "0 \<le> \<lfloor>r\<rfloor>" by simp
  then have "(9 \<le> nat \<lfloor>r\<rfloor> \<and> nat \<lfloor>r\<rfloor> \<le> 20) \<longleftrightarrow> (9 \<le> \<lfloor>r\<rfloor> \<and> \<lfloor>r\<rfloor> < 21)"
    by linarith
  also have "\<dots> \<longleftrightarrow> (9 \<le> r \<and> r < 21)"
    by (simp add: le_floor_iff floor_less_iff)
  finally show ?thesis .
qed

lemma find_append_new:
  "\<not> list_ex P xs \<Longrightarrow> P y \<Longrightarrow> find P (xs @ [y]) = Some y"
  by (induction xs) auto

lemma gap_segment_query:
  assumes build: "createTerrainSegment ext start T = (Inr seg, T')"
    and gap: "chunkType seg = Gap"
    and free: "\<not> list_ex (\<lambda>s. covers s x) (terrainMeshes T)"
    and inside: "start \<le> x" "x < start + segmentWidth"
  shows "getTerrainHeightAt T' x = Null \<longleftrightarrow> start + 360 / 29 \<le> x \<and> x < start + 840 / 29"
proof -
  from gap_segment_holes[OF build gap] obtain pts where
    p: "points seg = Some pts" and len: "length pts = 30" and sx: "startX seg = start"
    and holes: "\<forall>k<30. height (pts ! k) = None \<longleftrightarrow> 9 \<le> k \<and> k \<le> 20" by blast
  from inside sx have cov: "covers seg x" by (simp add: covers_def)
  from createTerrainSegment_Inr(1)[OF build] have "terrainMeshes T' = terrainMeshes T @ [seg]" .
  with find_append_new[OF free cov] have "getTerrainHeightAt T' x = heightInSegment seg x"
    by (simp add: getTerrainHeightAt.simps)
  also have "\<dots> = Null \<longleftrightarrow> height (pts ! nat \<lfloor>(x - start) / segmentWidth * 29\<rfloor>) = None"
    using heightInSegment_Null_iff[OF p len cov] sx by simp
  finally have a: "getTerrainHeightAt T' x = Null \<longleftrightarrow>
      height (pts ! nat \<lfloor>(x - start) / segmentWidth * 29\<rfloor>) = None" .
  define r where "r = (x - start) / segmentWidth * 29"
  from inside have r: "0 \<le> r" "r < 29" by (simp_all add: r_def segmentWidth_def)
  then have "\<lfloor>r\<rfloor> < 29" by (simp add: floor_less_iff)
  then have "nat \<lfloor>r\<rfloor> < 30" by linarith
  with holes have "height (pts ! nat \<lfloor>r\<rfloor>) = None \<longleftrightarrow> 9 \<le> nat \<lfloor>r\<rfloor> \<and> nat \<lfloor>r\<rfloor> \<le> 20"
    by blast
  also have "\<dots> \<longleftrightarrow> 9 \<le> r \<and> r < 21" using r(1) by (rule nat_floor_range)
  also have "\<dots> \<longleftrightarrow> start + 360 / 29 \<le> x \<and> x < start + 840 / 29"
    by (auto simp: r_def segmentWidth_def field_simps)
  finally show ?thesis using a by (simp add: r_def)
qed

lemma gap_window_in_band:
  assumes "0 \<le> d"
  shows "start + 360 / 29 < gapStart start (start + segmentWidth) d"
    and "gapEnd start (start + segmentWidth) d < start + 840 / 29"
  using gapWidth_bounds[OF assms] by (simp_all add: gap_window_segment)

lemma createTerrainSegment_returns:
  assumes "list_all hasPoints (terrainMeshes T)"
  shows "\<exists>seg T'. createTerrainSegment ext start T = (Inr seg, T')"
proof -
  obtain r T' where c: "createTerrainSegment ext start T = (r, T')"
    by (cases "createTerrainSegment ext start T")
  from hasPoints_createTerrainSegment(2)[OF assms c] c show ?thesis by auto
qed

lemma gap_at_1520:
  "\<exists>seg T'. createTerrainSegment ext0 1520 T18 = (Inr seg, T') \<and> chunkType seg = Gap"
proof -
  have "list_all hasPoints (terrainMeshes T18)" by (simp add: T18_def)
  from createTerrainSegment_returns[OF this, of ext0 1520] obtain seg T'
    where c: "createTerrainSegment ext0 1520 T18 = (Inr seg, T')" by blast
  from createTerrainSegment_points[OF c]
  have "chunkType seg = fst (selectChunkType (min 0.99 (max 0 (\<bar>1520\<bar> / 5000))) T18)"
    by auto
  also have "\<dots> = Gap"
    by (simp add: selectChunkType_def seededRandom_def jsmod_def Let_def T18_def)
  finally show ?thesis using c by blast
qed


























lemma heightInSegment_level:
  assumes "points s = Some pts" and "length pts = 30" and "covers s x"
    and lev: "\<forall>k<30. py (pts ! k) = Some h \<and> height (pts ! k) = Some h"
  shows "heightInSegment s x = Num h"
proof -
  define r where "r = (x - startX s) / segmentWidth * 29"
  define idx where "idx = nat \<lfloor>r\<rfloor>"
  from assms(3) have "r < 29"
    by (simp add: r_def covers_def segmentWidth_def)
  then have "\<lfloor>r\<rfloor> < 29" by (simp add: floor_less_iff)
  then have i: "idx < 29" unfolding idx_def by linarith
  define c where "c = cubicInterpolation
                   ((x - (startX s + (real idx / 29) * segmentWidth)) /
                    (startX s + ((real idx + 1) / 29) * segmentWidth -
                     (startX s + (real idx / 29) * segmentWidth)))"
  have "heightInSegment s x =
      (if idx < 30 \<and> height (pts ! idx) = None then Null
       else if idx < 29 then
         Num (numOf (py (pts ! idx)) * (1 - c) + numOf (py (pts ! (idx + 1))) * c)
       else jsOf (py (pts ! idx)))"
    unfolding heightInSegment_def Let_def assms(1) option.case assms(2) c_def
    by (simp add: idx_def r_def)
  moreover from lev i have "py (pts ! idx) = Some h" "height (pts ! idx) = Some h"
    "py (pts ! (idx + 1)) = Some h" by simp_all
  ultimately show ?thesis using i by (simp add: algebra_simps)
qed

lemma heightInSegment_flat:
  assumes "covers (flat s h) x"
  shows "heightInSegment (flat s h) x = Num h"
proof (rule heightInSegment_level[OF _ _ assms])
  show "points (flat s h) = Some (map (\<lambda>i. solid (s + real i * 40 / 29) h) [0..<30])"
    by (simp add: flat_def)
  show "length (map (\<lambda>i. solid (s + real i * 40 / 29) h) [0..<30]) = 30" by simp
  show "\<forall>k<30. py (map (\<lambda>i. solid (s + real i * 40 / 29) h) [0..<30] ! k) = Some h \<and>
               height (map (\<lambda>i. solid (s + real i * 40 / 29) h) [0..<30] ! k) = Some h"
    by (simp add: solid_def)
qed

lemma generateHills_at_start:
  assumes near: "getTerrainHeightNear T (x - 0.5) = Num h"
    and before: "getTerrainHeightAt T (x - 0.1) = Num h"
  shows "generateHills T x x endX d = h"
proof -
  define raw where "raw = improvedNoise T x 0.05 3 0.5 2.0 * min (1.2 + min (d * 0.6) 0.5 * 1.3) 1.8 +
                          improvedNoise T x 0.2 2 0.3 2.5 * (min (1.2 + min (d * 0.6) 0.5 * 1.3) 1.8 * 0.3)"
  have c: "(x - x < 1.0) = True" by simp
  have g: "generateHills T x x endX d =
      (if \<bar>raw - h\<bar> > 0.15
       then h + (raw - h) * quinticInterpolation (1 - min (\<bar>raw - h\<bar> / 0.15) 1)
       else h * (1 - quinticInterpolation (x - x)) + raw * quinticInterpolation (x - x))"
    apply (subst generateHills.simps)
    unfolding Let_def near before c raw_def[symmetric] jsNum.simps jsval.case if_True
    by (simp only: jsval.distinct simp_thms)
  show ?thesis
  proof (cases "\<bar>raw - h\<bar> > 0.15")
    case True
    then have "min (\<bar>raw - h\<bar> / 0.15) 1 = 1" by simp
    with True g show ?thesis by (simp add: quinticInterpolation_def)
  next
    case False
    with g show ?thesis by (simp add: quinticInterpolation_def)
  qed
qed

lemma smoothSegmentPoints_first:
  assumes dist: "distinct (map px pts)" and len: "0 < length pts"
    and h: "height (pts ! 0) \<noteq> None" and ph: "py (pts ! 0) = height (pts ! 0)"
  shows "smoothSegmentPoints pts ! 0 = pts ! 0"
proof (cases "length (validIndices pts) < 5")
  case True
  then show ?thesis by (simp add: smoothSegmentPoints_small)
next
  case False
  then have n5: "5 \<le> length (validIndices pts)" by simp
  from len have "[0..<length pts] = 0 # [Suc 0..<length pts]" by (simp add: upt_conv_Cons)
  with h have "findIndex (\<lambda>j. j = 0) (validIndices pts) = Some 0"
    by (simp add: validIndices_def)
  with smoothSegmentPoints_nth[OF dist n5 len] h ph show ?thesis
    by (simp add: Let_def halfWindow_def windowSize_def)
qed

lemma heightInSegment_at_start:
  assumes "points s = Some pts" and "length pts = 30"
    and "py (pts ! 0) = Some v" and "height (pts ! 0) = Some v"
  shows "heightInSegment s (startX s) = Num v"
  using assms by (simp add: heightInSegment_def Let_def cubicInterpolation_def)

lemma first_sample_after_flat:
  assumes tm: "terrainMeshes T = [flat (start - 40) h]"
    and gw: "0 \<le> d"
  shows "samplePoint T Gap start d pe 0 = solid start (h + 0.5)"
proof -
  have cov: "covers (flat (start - 40) h) (start - 0.5)" "covers (flat (start - 40) h) (start - 0.1)"
    by (simp_all add: covers_def flat_def segmentWidth_def)
  have near: "getTerrainHeightNear T (start - 0.5) = Num h"
  proof -
    have "\<lfloor>(start - 0.5 - (start - 40)) / segmentWidth * 30\<rfloor> = (29 :: int)"
      by (simp add: segmentWidth_def)
    with cov(1) show ?thesis
      unfolding getTerrainHeightNear_def tm Let_def
      by (simp add: flat_def solid_def)
  qed
  have before: "getTerrainHeightAt T (start - 0.1) = Num h"
    using cov(2) by (simp add: getTerrainHeightAt.simps tm heightInSegment_flat)
  from gapWidth_bounds[OF gw] have "start < gapStart start (start + segmentWidth) d - (start + segmentWidth - start) * 0.15"
    by (simp add: gap_window_segment(1)[of start d, unfolded segmentWidth_def] segmentWidth_def)
  then have "generateGap T start start (start + segmentWidth) d =
      Some (generateHills T start start
              (gapStart start (start + segmentWidth) d - (start + segmentWidth - start) * 0.15)
              (min (d * 0.7) 0.6 * 0.3) + 0.5)"
    unfolding generateGap_def Let_def by (simp only: if_True)
  with generateHills_at_start[OF near before]
  have "generateChunk T Gap start start d = Some (h + 0.5)"
    by (simp add: generateChunk_def)
  then show ?thesis
    unfolding samplePoint_def Let_def
    by (simp add: solid_def nbPoints_def)
qed

lemma gap_after_flat:
  "\<exists>seg T' pts. createTerrainSegment ext0 1520 Tflat = (Inr seg, T') \<and>
     chunkType seg = Gap \<and> startX seg = 1520 \<and>
     points seg = Some pts \<and> length pts = 30 \<and> pts ! 0 = solid 1520 (5 / 2) \<and>
     terrainMeshes T' = [flat 1480 2, seg]"
proof -
  define d :: real where "d = min 0.99 (max 0 (\<bar>1520\<bar> / 5000))"
  have d0: "0 \<le> d" by (simp add: d_def)
  define T1 where "T1 = snd (selectChunkType d Tflat)"
  have "list_all hasPoints (terrainMeshes Tflat)"
    by (simp add: Tflat_def flat_def hasPoints_def)
  from createTerrainSegment_returns[OF this, of ext0 1520] obtain seg T'
    where c: "createTerrainSegment ext0 1520 Tflat = (Inr seg, T')" by blast
  have sel: "fst (selectChunkType d Tflat) = Gap"
    by (simp add: d_def selectChunkType_def seededRandom_def jsmod_def Let_def Tflat_def)
  from createTerrainSegment_points[OF c, folded d_def] obtain pe where
    pe: "previousEndHeight Tflat = Inr pe" and
    seg: "seg = \<lparr>startX = 1520,
                  points = Some (smoothSegmentPoints
                     (map (samplePoint T1 Gap 1520 d pe) [0..<nbPoints])),
                  chunkType = Gap\<rparr>"
    unfolding T1_def sel by blast
  define raw where "raw = map (samplePoint T1 Gap 1520 d pe) [0..<nbPoints]"
  have tm1: "terrainMeshes T1 = [flat (1520 - 40) 2]"
    by (simp add: T1_def Tflat_def)
  have r0: "raw ! 0 = solid 1520 (5 / 2)"
    using first_sample_after_flat[OF tm1 d0, of pe] by (simp add: raw_def nbPoints_def)
  have dist: "distinct (map px raw)" unfolding raw_def by (rule distinct_px_samples)
  have len: "length raw = 30" by (simp add: raw_def nbPoints_def)
  have "smoothSegmentPoints raw ! 0 = raw ! 0"
    by (rule smoothSegmentPoints_first[OF dist]) (simp_all add: len r0 solid_def)
  with r0 have p0: "smoothSegmentPoints raw ! 0 = solid 1520 (5 / 2)" by simp
  from createTerrainSegment_Inr(1)[OF c]
  have "terrainMeshes T' = [flat 1480 2, seg]" by (simp add: Tflat_def)
  with c seg p0 len show ?thesis by (simp add: raw_def)
qed

lemma previousEndHeight_Tflat: "previousEndHeight Tflat = Inr (Some 2)"
  by (simp add: previousEndHeight_def Tflat_def flat_def solid_def last_map)

lemma arctan_partial_sums:
  fixes x :: real
  assumes "0 < x" and "x \<le> 1"
  shows "(\<Sum>i<2*n. (- 1) ^ i * (1 / real (i * 2 + 1) * x ^ (i * 2 + 1))) \<le> arctan x"
    and "arctan x \<le> (\<Sum>i<2*n+1. (- 1) ^ i * (1 / real (i * 2 + 1) * x ^ (i * 2 + 1)))"
proof -
  from assms have ax: "\<bar>x\<bar> \<le> 1" by simp
  have "0 < 1 / real (0 * 2 + 1) * x ^ (0 * 2 + 1)" using assms by simp
  with summable_Leibniz(2)[OF zeroseq_arctan_series[OF ax] monoseq_arctan_series[OF ax]]
  have "(\<Sum>i. (- 1) ^ i * (1 / real (i * 2 + 1) * x ^ (i * 2 + 1))) \<in>
          {\<Sum>i<2*n. (- 1) ^ i * (1 / real (i * 2 + 1) * x ^ (i * 2 + 1)) ..
           \<Sum>i<2*n+1. (- 1) ^ i * (1 / real (i * 2 + 1) * x ^ (i * 2 + 1))}"
    by blast
  then show "(\<Sum>i<2*n. (- 1) ^ i * (1 / real (i * 2 + 1) * x ^ (i * 2 + 1))) \<le> arctan x"
    and "arctan x \<le> (\<Sum>i<2*n+1. (- 1) ^ i * (1 / real (i * 2 + 1) * x ^ (i * 2 + 1)))"
    using arctan_series[OF ax] by simp_all
qed

lemma upto_10: "{..<10::nat} = {0, 1, 2, 3, 4, 5, 6, 7, 8, 9}"
  by auto

lemma upto_11: "{..<11::nat} = insert 10 {..<10}"
  by auto

lemma arctan_fifth:
  "10955862453004583122 / 55502071380615234375 \<le> arctan (1 / 5)"
  "arctan (1 / 5) \<le> 273896561325114716617 / 1387551784515380859375"
  using arctan_partial_sums[of "1 / 5" 5]
  by (simp_all add: upto_10 upto_11 power_divide)

lemma arctan_239th:
  "19569249503065996 / 4677077924340368295 \<le> arctan (1 / 239)"
  "arctan (1 / 239) \<le> 48941844013 / 11697168977985"
proof -
  have e: "{..<4::nat} = {0, 1, 2, 3}" "{..<3::nat} = {0, 1, 2}" by auto
  from arctan_partial_sums(1)[of "1 / 239" 2]
  show "19569249503065996 / 4677077924340368295 \<le> arctan (1 / 239)"
    by (simp add: e power_divide)
  from arctan_partial_sums(2)[of "1 / 239" 1]
  show "arctan (1 / 239) \<le> 48941844013 / 11697168977985"
    by (simp add: e power_divide)
qed

lemma pi_bounds: "3.1415926535897 < pi" "pi < 3.1415926535898"
proof -
  from machin have p: "pi = 16 * arctan (1 / 5) - 4 * arctan (1 / 239)" by simp
  from arctan_fifth(1) arctan_239th(2) show "3.1415926535897 < pi"
    unfolding p by simp
  from arctan_fifth(2) arctan_239th(1) show "pi < 3.1415926535898"
    unfolding p by simp
qed

lemma sin_lipschitz: "\<bar>sin a - sin b\<bar> \<le> \<bar>a - b\<bar>" for a b :: real
proof -
  have "\<bar>sin a - sin b\<bar> = 2 * \<bar>sin ((a - b) / 2)\<bar> * \<bar>cos ((a + b) / 2)\<bar>"
    by (simp add: sin_diff_sin abs_mult)
  also have "\<dots> \<le> 2 * \<bar>(a - b) / 2\<bar> * 1"
    by (intro mult_mono mult_nonneg_nonneg abs_sin_x_le_abs_x) simp_all
  finally show ?thesis by simp
qed

lemma sin_1_6345:
  "(0.997971378 :: real) < sin (163450357 / 10 ^ 8)" "sin (163450357 / 10 ^ 8) < (0.997971381 :: real)"
proof -
  define S :: real where "S = (\<Sum>m<16. sin_coeff m * (163450357 / 10 ^ 8) ^ m)"
  have S: "0.9979713798 < S" "S < 0.9979713799"
    by (simp_all add: S_def lessThan_nat_numeral sin_coeff_def power_divide fact_numeral)
  have "inverse (fact 16) * \<bar>163450357 / 10 ^ 8 :: real\<bar> ^ 16 < 1 / 10 ^ 9"
    by (simp add: power_divide fact_numeral)
  with Maclaurin_sin_bound[of "163450357 / 10 ^ 8" 16, folded S_def]
  have "\<bar>sin (163450357 / 10 ^ 8) - S\<bar> < 1 / 10 ^ 9" by linarith
  then have "S - 1 / 10 ^ 9 < sin (163450357 / 10 ^ 8)" "sin (163450357 / 10 ^ 8) < S + 1 / 10 ^ 9"
    by linarith+
  then have b: "S - 1 / 10 ^ 9 < sin (163450357 / 10 ^ 8)" "sin (163450357 / 10 ^ 8) < S + 1 / 10 ^ 9" .
  from S(1) b(1) show "(0.997971378 :: real) < sin (163450357 / 10 ^ 8)"
    by (simp; linarith)
  from S(2) b(2) show "sin (163450357 / 10 ^ 8) < (0.997971381 :: real)"
    by (simp; linarith)
qed

lemma sin_10309:
  "(- 0.9979714 :: real) < sin (51546 / 5)" "sin (51546 / 5) < (- 0.9979713 :: real)"
proof -
  define r where "r = 51546 / 5 - 3281 * pi"
  have "sin (51546 / 5) = sin (r + 3281 * pi)" by (simp add: r_def)
  also have "\<dots> = - sin r" by (simp add: sin_add)
  finally have s: "sin (51546 / 5) = - sin r" .
  from pi_bounds have "\<bar>r - 163450357 / 10 ^ 8\<bar> < 1 / 10 ^ 8"
    by (simp add: r_def abs_less_iff)
  with sin_lipschitz[of r "163450357 / 10 ^ 8"]
  have "\<bar>sin r - sin (163450357 / 10 ^ 8)\<bar> < 1 / 10 ^ 8" by linarith
  then have "sin (163450357 / 10 ^ 8) - 1 / 10 ^ 8 < sin r" "sin r < sin (163450357 / 10 ^ 8) + 1 / 10 ^ 8"
    by linarith+
  then have b: "sin (163450357 / 10 ^ 8) - 1 / 10 ^ 8 < sin r" "sin r < sin (163450357 / 10 ^ 8) + 1 / 10 ^ 8" .
  from sin_1_6345(2) b(2) show "(- 0.9979714 :: real) < sin (51546 / 5)"
    unfolding s by (simp; linarith)
  from sin_1_6345(1) b(1) show "sin (51546 / 5) < (- 0.9979713 :: real)"
    unfolding s by (simp; linarith)
qed

lemma noise_T0: "noise T0 0 = - 1"
  by (simp add: noise_def T0_def jsmod_def Let_def)

lemma seed_after_draw: "seed (snd (seededRandom T0)) = 49297"
  by (simp add: seededRandom_def T0_def jsmod_def Let_def)

lemma noise_at_49297:
  assumes "seed T = 49297"
  shows "noise T 0 =
     (sin (51546 / 5) * 43758.5453 - of_int \<lfloor>sin (51546 / 5) * 43758.5453 :: real\<rfloor>) * 2 - 1"
  by (simp add: noise_def assms jsmod_def Let_def)

lemma n1_at_49297:
  "- 43669.78 < sin (51546 / 5) * (43758.5453 :: real)"
  "sin (51546 / 5) * (43758.5453 :: real) < - 43669.77"
proof -
  from sin_10309(1) show "- 43669.78 < sin (51546 / 5) * (43758.5453 :: real)"
    by (simp; linarith)
  from sin_10309(2) show "sin (51546 / 5) * (43758.5453 :: real) < - 43669.77"
    by (simp; linarith)
qed

lemma floor_n1_at_49297: "\<lfloor>sin (51546 / 5) * 43758.5453 :: real\<rfloor> = - 43670"
proof (rule floor_unique)
  from n1_at_49297(1) show "real_of_int (- 43670) \<le> sin (51546 / 5) * 43758.5453"
    by (simp; linarith)
  from n1_at_49297(2) show "sin (51546 / 5) * 43758.5453 < real_of_int (- 43670) + 1"
    by (simp; linarith)
qed







lemma guarded_ext0 [simp]: "guarded ext0 c T = Completed T"
  by (simp add: guarded_def ext0_def)

lemma guarded_extFail [simp]: "guarded extFail c T = Thrown T"
  by (simp add: guarded_def extFail_def)



















lemma run_readField [simp]: "run_state (readField f) T = (f T, T)"
  by (simp add: readField_def)

lemma run_noiseM [simp]: "run_state (noiseM x) T = (noise T x, T)"
  by (simp add: noiseM_def noise_def Let_def)

lemma run_noiseOctavesM [simp]:
  "run_state (noiseOctavesM sx n p l f a acc m) T = (noiseOctaves T sx n p l f a acc m, T)"
  by (induction n arbitrary: f a acc m) simp_all

lemma run_improvedNoiseM [simp]:
  "run_state (improvedNoiseM x f n p l) T = (improvedNoise T x f n p l, T)"
  by (simp add: improvedNoiseM_def improvedNoise_def Let_def case_prod_beta)

lemma run_getTerrainHeightNearM [simp]:
  "run_state (getTerrainHeightNearM x) T = (getTerrainHeightNear T x, T)"
  by (simp add: getTerrainHeightNearM_def getTerrainHeightNear_def)

lemma run_generateHillsM_interior:
  assumes "\<not> x - start < 1.0" and "\<not> endX - x < 1.0"
  shows "run_state (generateHillsM x start endX d) T = (generateHills T x start endX d, T)"
  using assms
  by (subst generateHillsM.simps, subst generateHills.simps) (simp add: Let_def)

lemma run_getTerrainHeightAtM [simp]:
  "run_state (getTerrainHeightAtM x) T = (getTerrainHeightAt T x, T)"
proof -
  have "run_state (generateHillsM x (x - 10) (x + 10) 0.1) T =
        (generateHills T x (x - 10) (x + 10) 0.1, T)"
    by (rule run_generateHillsM_interior) simp_all
  then show ?thesis
    by (subst getTerrainHeightAtM.simps, subst getTerrainHeightAt.simps)
       (simp split: option.split)
qed





section \<open>Chunk selection respects the difficulty bands\<close>

text \<open>
  C5. Whatever the difficulty and the state of the generator, \<open>selectChunkType\<close> returns
  only hills or plateau below difficulty 0.15 (so no washboard there), and never
  a gap or a valley below difficulty 0.3.
\<close>

theorem selectChunkType_thresholds:
  "(difficulty < 15 / 100 \<longrightarrow> fst (selectChunkType difficulty T) \<in> {Hills, Plateau}) \<and>
   (difficulty < 15 / 100 \<longrightarrow> fst (selectChunkType difficulty T) \<noteq> Washboard) \<and>
   (difficulty < 3 / 10 \<longrightarrow> fst (selectChunkType difficulty T) \<noteq> Gap) \<and>
   (difficulty < 3 / 10 \<longrightarrow> fst (selectChunkType difficulty T) \<noteq> Valley)"
  by (simp add: selectChunkType_def Let_def split: prod.split)

theorem selectChunkType_thresholds_witness:
  "(1 / 10 :: real) < 15 / 100 \<and> (1 / 10 :: real) < 3 / 10 \<and>
   fst (selectChunkType (1 / 10)
          \<lparr>seed = 42, noiseOffsetX = 42, terrainMeshes = [], world = ()\<rparr>) = Plateau"
  using selectChunkType_thresholds
    [of "1 / 10" "\<lparr>seed = 42, noiseOffsetX = 42, terrainMeshes = [], world = ()\<rparr>"]
  by (simp add: selectChunkType_def seededRandom_def jsmod_def Let_def)

section \<open>No two stored segments share a start position\<close>

text \<open>
  C6 (amended). After a tick of \<open>update\<close> that returns, the store holds no two segments
  with the same \<open>startX\<close>, provided that the tick got past the checks of the tracked
  position or that the store held no two such segments when the tick began. A tick
  that gets past the checks removes duplicates first and never adds a start position
  twice; a tick that returns early leaves the store as it was.
\<close>

theorem update_no_duplicate_startX:
  assumes "update ext vehiclePosition T = Some r"
    and "trackedIndex vehiclePosition \<noteq> None \<or> distinct (map startX (terrainMeshes T))"
  shows "distinct (map startX (terrainMeshes (tickTerrain r)))"
proof (cases "trackedIndex vehiclePosition")
  case None
  with assms show ?thesis by (auto simp: update_def)
next
  case (Some a)
  obtain tracked cur where a: "a = (tracked, cur)" by (cases a)
  obtain u w where d: "dedupe ext (terrainMeshes T) [] {} (world T) = (u, w)"
    by (cases "dedupe ext (terrainMeshes T) [] {} (world T)")
  define T1 where "T1 = T\<lparr>terrainMeshes := u, world := w\<rparr>"
  define E where "E = set (map startX (terrainMeshes T))"
  from dedupe_distinct[of "[]" "{}" ext "terrainMeshes T" "world T"] d
  have inv1: "storeInv E T1" by (simp add: storeInv_def T1_def E_def)
  from assms(1) Some a d obtain E2 T2 where
    g: "generateAhead ext cur E T1 = Some (E2, T2)"
    by (auto simp: update_def Let_def T1_def E_def split: option.splits)
  from storeInv_generateAhead[OF g inv1] have inv2: "storeInv E2 T2" by simp
  obtain E3 T3 where e: "evictBehind ext cur E2 T2 = (E3, T3)"
    by (cases "evictBehind ext cur E2 T2")
  from storeInv_evictBehind[OF inv2, of ext cur] e have inv3: "storeInv E3 T3" by simp
  from assms(1) Some a d g e obtain c where "r = selfHeal ext tracked c E3 T3"
    by (auto simp: update_def Let_def T1_def E_def)
  with distinct_selfHeal[OF inv3] show ?thesis by simp
qed

theorem update_no_duplicate_startX_witness:
  "update ext0 (Position (XNumber (Finite 10)))
     \<lparr>seed = 42, noiseOffsetX = 42, terrainMeshes = [bare 0, bare 0, bare 200], world = ()\<rparr>
     = Some (Ticked \<lparr>seed = 42, noiseOffsetX = 42, terrainMeshes = [bare 0, bare 200],
                     world = ()\<rparr>) \<and>
   trackedIndex (Position (XNumber (Finite 10))) = Some (Finite 10, At 0) \<and>
   distinct (map startX [bare 0, bare 200])"
  using update_no_duplicate_startX [of ext0 "Position (XNumber (Finite 10))"
      "\<lparr>seed = 42, noiseOffsetX = 42, terrainMeshes = [bare 0, bare 0, bare 200], world = ()\<rparr>"
      "Ticked \<lparr>seed = 42, noiseOffsetX = 42, terrainMeshes = [bare 0, bare 200], world = ()\<rparr>"]
  by (simp add: update_def trackedIndex_def segmentWidth_def bare_def ext0_def Let_def
      generateAhead.simps [of _ _ _ "\<lparr>seed = 42, noiseOffsetX = 42, terrainMeshes = [\<lparr>startX = 0, points = None, chunkType = Hills\<rparr>, \<lparr>startX = 200, points = None, chunkType = Hills\<rparr>], world = ()\<rparr>"]
      evictBehind.simps [of _ _ _ "\<lparr>seed = 42, noiseOffsetX = 42, terrainMeshes = [\<lparr>startX = 0, points = None, chunkType = Hills\<rparr>, \<lparr>startX = 200, points = None, chunkType = Hills\<rparr>], world = ()\<rparr>"]
      segmentsAhead_def segmentsBehind_def selfHeal_def covers_def finishTick_def)

text \<open>
  C6 as stated fails: a tick whose tracked position is \<open>NaN\<close> returns at the checks,
  before the loop that removes duplicates, and a store that holds the start position
  0 twice still holds it twice.
\<close>

theorem update_early_return_keeps_duplicates:
  "update ext0 (Position (XNumber NaN))
     \<lparr>seed = 42, noiseOffsetX = 42, terrainMeshes = [bare 0, bare 0, bare 200], world = ()\<rparr>
     = Some (Ticked \<lparr>seed = 42, noiseOffsetX = 42,
                     terrainMeshes = [bare 0, bare 0, bare 200], world = ()\<rparr>) \<and>
   \<not> distinct (map startX [bare 0, bare 0, bare 200])"
  by (simp add: update_def trackedIndex_def bare_def)

section \<open>A tracked position at infinity\<close>

text \<open>
  C7. The claim is that \<open>update\<close> returns early, with the store and the generator
  untouched, for every tracked position that is not a finite number. The checks
  refuse a missing position, a non-number, \<open>NaN\<close>, \<open>-Infinity\<close> and a negative index
  (lemmas \<open>trackedIndex_None_iff\<close> and \<open>update_early_return\<close>), but they let
  \<open>+Infinity\<close> through: on a freshly constructed terrain the tick then never returns,
  since the generation loop can never reach its target index.
\<close>

theorem update_at_infinity_does_not_return:
  "\<exists>T. newTerrain ext0 () 42 = Inr T \<and> update ext0 (Position (XNumber PosInf)) T = None"
  using newTerrain_returns [of ext0 "()" 42] update_PosInf_never_returns [of _ ext0]
  by blast

section \<open>The smoothing pass\<close>

text \<open>
  C8 (amended). \<open>smoothSegmentPoints\<close> changes nothing when fewer than five samples have a
  height. Otherwise, on samples with pairwise distinct \<open>x\<close> whose \<open>y\<close> equals their
  height, it leaves every hole, and the first two and last two samples that have a
  height, as they are; every other sample with a height gets, as \<open>y\<close> and as height,
  the triangular-weighted sum (weights 1/3, 2/3, 1, 2/3, 1/3) of the five consecutive
  samples with a height centred on it, divided by \<open>windowSize\<close>. The window runs over
  the samples that have a height, in order: next to a hole it takes samples from
  both sides of the hole.
\<close>

theorem smoothSegmentPoints_window:
  assumes "distinct (map px pts)"
    and "\<forall>p\<in>set pts. height p \<noteq> None \<longrightarrow> py p = height p"
  shows "length (smoothSegmentPoints pts) = length pts \<and>
    (length (validIndices pts) < 5 \<longrightarrow> smoothSegmentPoints pts = pts) \<and>
    (\<forall>k<length pts. height (pts ! k) = None \<longrightarrow> smoothSegmentPoints pts ! k = pts ! k) \<and>
    (\<forall>i<length (validIndices pts). i < 2 \<or> length (validIndices pts) \<le> i + 2 \<longrightarrow>
        smoothSegmentPoints pts ! (validIndices pts ! i) = pts ! (validIndices pts ! i)) \<and>
    (\<forall>i. 2 \<le> i \<and> i + 2 < length (validIndices pts) \<longrightarrow>
        smoothSegmentPoints pts ! (validIndices pts ! i) =
          (pts ! (validIndices pts ! i))
          \<lparr>py := Some
             ((numOf (py (pts ! (validIndices pts ! (i - 2)))) * (1 / 3) +
               numOf (py (pts ! (validIndices pts ! (i - 1)))) * (2 / 3) +
               numOf (py (pts ! (validIndices pts ! i))) +
               numOf (py (pts ! (validIndices pts ! (i + 1)))) * (2 / 3) +
               numOf (py (pts ! (validIndices pts ! (i + 2)))) * (1 / 3)) / real windowSize),
           height := Some
             ((numOf (py (pts ! (validIndices pts ! (i - 2)))) * (1 / 3) +
               numOf (py (pts ! (validIndices pts ! (i - 1)))) * (2 / 3) +
               numOf (py (pts ! (validIndices pts ! i))) +
               numOf (py (pts ! (validIndices pts ! (i + 1)))) * (2 / 3) +
               numOf (py (pts ! (validIndices pts ! (i + 2)))) * (1 / 3)) / real windowSize)\<rparr>)"
proof (intro conjI allI impI)
  show "length (smoothSegmentPoints pts) = length pts" by simp
next
  assume "length (validIndices pts) < 5"
  then show "smoothSegmentPoints pts = pts" by (rule smoothSegmentPoints_small)
next
  fix k assume k: "k < length pts" and h: "height (pts ! k) = None"
  show "smoothSegmentPoints pts ! k = pts ! k"
  proof (cases "length (validIndices pts) < 5")
    case True
    then show ?thesis by (simp add: smoothSegmentPoints_small)
  next
    case False
    with smoothSegmentPoints_nth[OF assms(1) _ k] h show ?thesis by simp
  qed
next
  fix i assume i: "i < length (validIndices pts)"
    and e: "i < 2 \<or> length (validIndices pts) \<le> i + 2"
  let ?k = "validIndices pts ! i"
  note v = validIndices_nth[OF i]
  show "smoothSegmentPoints pts ! ?k = pts ! ?k"
  proof (cases "length (validIndices pts) < 5")
    case True
    then show ?thesis by (simp add: smoothSegmentPoints_small)
  next
    case False
    from v(1) have "pts ! ?k \<in> set pts" by simp
    with assms(2) v(2) have "py (pts ! ?k) = height (pts ! ?k)" by blast
    with smoothSegmentPoints_nth[OF assms(1) _ v(1)] False v e show ?thesis
      by (auto simp: Let_def halfWindow_def windowSize_def)
  qed
next
  fix i assume a: "2 \<le> i \<and> i + 2 < length (validIndices pts)"
  then have i: "i < length (validIndices pts)" and n5: "5 \<le> length (validIndices pts)" by simp_all
  let ?k = "validIndices pts ! i"
  note v = validIndices_nth[OF i]
  have w: "smoothedY (map (\<lambda>k. py (pts ! k)) (validIndices pts)) i =
      (numOf (py (pts ! (validIndices pts ! (i - 2)))) * (1 / 3) +
       numOf (py (pts ! (validIndices pts ! (i - 1)))) * (2 / 3) +
       numOf (py (pts ! (validIndices pts ! i))) +
       numOf (py (pts ! (validIndices pts ! (i + 1)))) * (2 / 3) +
       numOf (py (pts ! (validIndices pts ! (i + 2)))) * (1 / 3)) / real windowSize"
  proof -
    from a have "i - 2 < length (validIndices pts)" "i - 1 < length (validIndices pts)"
      "i + 1 < length (validIndices pts)" "i + 2 < length (validIndices pts)" by linarith+
    with a i show ?thesis by (simp add: smoothedY_def windowSum_weights)
  qed
  from smoothSegmentPoints_nth[OF assms(1) n5 v(1)] v a
  have "smoothSegmentPoints pts ! ?k =
     (pts ! ?k)\<lparr>py := Some (smoothedY (map (\<lambda>k. py (pts ! k)) (validIndices pts)) i),
                 height := Some (smoothedY (map (\<lambda>k. py (pts ! k)) (validIndices pts)) i)\<rparr>"
    by (auto simp: Let_def halfWindow_def windowSize_def)
  then show "smoothSegmentPoints pts ! ?k =
          (pts ! ?k)
          \<lparr>py := Some
             ((numOf (py (pts ! (validIndices pts ! (i - 2)))) * (1 / 3) +
               numOf (py (pts ! (validIndices pts ! (i - 1)))) * (2 / 3) +
               numOf (py (pts ! (validIndices pts ! i))) +
               numOf (py (pts ! (validIndices pts ! (i + 1)))) * (2 / 3) +
               numOf (py (pts ! (validIndices pts ! (i + 2)))) * (1 / 3)) / real windowSize),
           height := Some
             ((numOf (py (pts ! (validIndices pts ! (i - 2)))) * (1 / 3) +
               numOf (py (pts ! (validIndices pts ! (i - 1)))) * (2 / 3) +
               numOf (py (pts ! (validIndices pts ! i))) +
               numOf (py (pts ! (validIndices pts ! (i + 1)))) * (2 / 3) +
               numOf (py (pts ! (validIndices pts ! (i + 2)))) * (1 / 3)) / real windowSize)\<rparr>"
    by (simp only: w)
qed

theorem smoothSegmentPoints_window_witness:
  "distinct (map px [solid 0 0, solid 1 0, solid 2 0, hole 3, solid 4 15, solid 5 15, solid 6 15]) \<and>
   validIndices [solid 0 0, solid 1 0, solid 2 0, hole 3, solid 4 15, solid 5 15, solid 6 15]
     = [0, 1, 2, 4, 5, 6] \<and>
   smoothSegmentPoints
     [solid 0 0, solid 1 0, solid 2 0, hole 3, solid 4 15, solid 5 15, solid 6 15] ! 2
     = solid 2 ((0 * (1 / 3) + 0 * (2 / 3) + 0 + 15 * (2 / 3) + 15 * (1 / 3)) / 5) \<and>
   smoothSegmentPoints
     [solid 0 0, solid 1 0, solid 2 0, hole 3, solid 4 15, solid 5 15, solid 6 15] ! 3
     = hole 3"
proof -
  let ?pts = "[solid 0 0, solid 1 0, solid 2 0, hole 3, solid 4 15, solid 5 15, solid 6 15]"
  have d: "distinct (map px ?pts)" by (simp add: solid_def hole_def)
  have e: "\<forall>p\<in>set ?pts. height p \<noteq> None \<longrightarrow> py p = height p"
    by (simp add: solid_def hole_def)
  have v: "validIndices ?pts = [0, 1, 2, 4, 5, 6]" by code_simp
  note t = smoothSegmentPoints_window [OF d e, unfolded v]
  from t have "smoothSegmentPoints ?pts ! ([0, 1, 2, 4, 5, 6] ! 2) =
      (?pts ! ([0, 1, 2, 4, 5, 6] ! 2))
      \<lparr>py := Some ((numOf (py (?pts ! ([0, 1, 2, 4, 5, 6] ! (2 - 2)))) * (1 / 3) +
               numOf (py (?pts ! ([0, 1, 2, 4, 5, 6] ! (2 - 1)))) * (2 / 3) +
               numOf (py (?pts ! ([0, 1, 2, 4, 5, 6] ! 2))) +
               numOf (py (?pts ! ([0, 1, 2, 4, 5, 6] ! (2 + 1)))) * (2 / 3) +
               numOf (py (?pts ! ([0, 1, 2, 4, 5, 6] ! (2 + 2)))) * (1 / 3)) / real windowSize),
        height := Some ((numOf (py (?pts ! ([0, 1, 2, 4, 5, 6] ! (2 - 2)))) * (1 / 3) +
               numOf (py (?pts ! ([0, 1, 2, 4, 5, 6] ! (2 - 1)))) * (2 / 3) +
               numOf (py (?pts ! ([0, 1, 2, 4, 5, 6] ! 2))) +
               numOf (py (?pts ! ([0, 1, 2, 4, 5, 6] ! (2 + 1)))) * (2 / 3) +
               numOf (py (?pts ! ([0, 1, 2, 4, 5, 6] ! (2 + 2)))) * (1 / 3)) / real windowSize)\<rparr>"
    by (elim conjE) (erule allE [of _ 2], simp)
  then have a: "smoothSegmentPoints ?pts ! 2 =
      solid 2 ((0 * (1 / 3) + 0 * (2 / 3) + 0 + 15 * (2 / 3) + 15 * (1 / 3)) / 5)"
    by (simp add: solid_def hole_def windowSize_def)
  from t have "3 < length ?pts \<longrightarrow> height (?pts ! 3) = None \<longrightarrow>
      smoothSegmentPoints ?pts ! 3 = ?pts ! 3"
    by blast
  then have b: "smoothSegmentPoints ?pts ! 3 = hole 3" by (simp add: hole_def)
  from d v a b show ?thesis by simp
qed

text \<open>
  C8 as stated fails twice. A constant profile of height 5 gets 3 in the middle: the
  weights sum to 3 and the sum is divided by 5. And with ground at 0 before a hole
  and at 15 after it, the sample just before the hole is lifted to 3 and the one just
  after it lowered to 6: each window reached across the hole.
\<close>

theorem smoothSegmentPoints_counterexample:
  "map height (smoothSegmentPoints [solid 0 5, solid 1 5, solid 2 5, solid 3 5, solid 4 5]) =
     [Some 5, Some 5, Some 3, Some 5, Some 5] \<and>
   map height (smoothSegmentPoints
      [solid 0 0, solid 1 0, solid 2 0, hole 3, solid 4 15, solid 5 15, solid 6 15]) =
     [Some 0, Some 0, Some 3, None, Some 6, Some 15, Some 15]"
  by code_simp

section \<open>Height queries outside the stored segments\<close>



section \<open>A covering segment without samples\<close>

text \<open>
  C10. When the segment that the lookup reaches first for \<open>x\<close> has no \<open>points\<close>
  array, or an empty one, \<open>getTerrainHeightAt\<close> answers the number 0, which is
  neither \<open>null\<close> nor \<open>undefined\<close> and is what genuine terrain at height zero gives.
\<close>

theorem getTerrainHeightAt_degenerate_segment:
  assumes "find (\<lambda>s. covers s x) (terrainMeshes T) = Some s"
    and "points s = None \<or> points s = Some []"
  shows "getTerrainHeightAt T x = Num 0"
  using assms by (auto simp: getTerrainHeightAt.simps heightInSegment_def)

theorem getTerrainHeightAt_degenerate_segment_witness:
  "find (\<lambda>s. covers s 50)
     [\<lparr>startX = 0, points = Some [], chunkType = Hills\<rparr>,
      \<lparr>startX = 40, points = Some [], chunkType = Hills\<rparr>]
     = Some \<lparr>startX = 40, points = Some [], chunkType = Hills\<rparr> \<and>
   getTerrainHeightAt
     \<lparr>seed = 42, noiseOffsetX = 42,
      terrainMeshes = [\<lparr>startX = 0, points = Some [], chunkType = Hills\<rparr>,
                       \<lparr>startX = 40, points = Some [], chunkType = Hills\<rparr>],
      world = ()\<rparr> 50 = Num 0"
  using getTerrainHeightAt_degenerate_segment
    [of 50 "\<lparr>seed = 42, noiseOffsetX = 42,
      terrainMeshes = [\<lparr>startX = 0, points = Some [], chunkType = Hills\<rparr>,
                       \<lparr>startX = 40, points = Some [], chunkType = Hills\<rparr>],
      world = ()\<rparr>" "\<lparr>startX = 40, points = Some [], chunkType = Hills\<rparr>"]
  by (simp add: covers_def segmentWidth_def)

section \<open>Height queries over a gap segment\<close>

text \<open>
  For a segment that \<open>createTerrainSegment\<close> has just built with chunk type gap, and an
  \<open>x\<close> of that segment that no older segment holds, \<open>getTerrainHeightAt\<close> answers \<open>null\<close>
  exactly when \<open>startX + 360/29 \<le> x < startX + 840/29\<close>: these are the positions whose
  sample index is one of 9..20, the samples the builder marks as holes by its own test
  on the index, whatever the gap generator returned for them. The void window
  \<open>[gapStart, gapEnd)\<close> of the gap generator lies strictly inside this band.
\<close>

lemma gap_segment_null_band:
  assumes "createTerrainSegment ext start T = (Inr seg, T')"
    and "chunkType seg = Gap"
    and "\<not> list_ex (\<lambda>s. covers s x) (terrainMeshes T)"
    and "start \<le> x" and "x < start + segmentWidth"
  shows "(getTerrainHeightAt T' x = Null \<longleftrightarrow> start + 360 / 29 \<le> x \<and> x < start + 840 / 29) \<and>
         start + 360 / 29 < gapStart start (start + segmentWidth) (min 0.99 (max 0 (\<bar>start\<bar> / 5000))) \<and>
         gapEnd start (start + segmentWidth) (min 0.99 (max 0 (\<bar>start\<bar> / 5000))) < start + 840 / 29"
proof -
  have "0 \<le> min 0.99 (max 0 (\<bar>start\<bar> / 5000))" by simp
  from gap_window_in_band[OF this] gap_segment_query[OF assms] show ?thesis by blast
qed

lemma gap_segment_null_band_at_1520:
  "\<exists>seg T'. createTerrainSegment ext0 1520 T18 = (Inr seg, T') \<and> chunkType seg = Gap \<and>
     getTerrainHeightAt T' 1540 = Null \<and> getTerrainHeightAt T' 1525 \<noteq> Null"
proof -
  from gap_at_1520 obtain seg T' where c: "createTerrainSegment ext0 1520 T18 = (Inr seg, T')"
    and g: "chunkType seg = Gap" by blast
  have e: "\<not> list_ex (\<lambda>s. covers s x) (terrainMeshes T18)" for x by (simp add: T18_def)
  from gap_segment_null_band[OF c g e, of 1540] have "getTerrainHeightAt T' 1540 = Null"
    by (simp add: segmentWidth_def)
  moreover from gap_segment_null_band[OF c g e, of 1525] have "getTerrainHeightAt T' 1525 \<noteq> Null"
    by (simp add: segmentWidth_def)
  ultimately show ?thesis using c g by blast
qed


section \<open>Two instances with the same seed build the same terrain\<close>




section \<open>The seam between two segments\<close>

text \<open>
  C3. The store holds one flat segment over \<open>[1480, 1520)\<close> whose samples, the last one
  included, are at height 2; the next draw selects a gap, whose void lies beyond
  1538. \<open>createTerrainSegment(1520)\<close> then gives the first sample of the new segment the
  generator's own height 2.5, not 2: the blend toward the previous end height starts
  at the second sample. Height queries just left of the boundary answer 2, and at the
  boundary 2.5.
\<close>

theorem first_sample_not_joined:
  "\<exists>seg T' pts. createTerrainSegment ext0 1520 Tflat = (Inr seg, T') \<and>
     points seg = Some pts \<and>
     previousEndHeight Tflat = Inr (Some 2) \<and>
     height (pts ! 0) = Some (5 / 2) \<and>
     getTerrainHeightAt T' (1520 - 1 / 1000) = Num 2 \<and>
     getTerrainHeightAt T' 1520 = Num (5 / 2) \<and>
     1520 + 18 < gapStart 1520 (1520 + segmentWidth) (min 0.99 (max 0 (\<bar>1520\<bar> / 5000)))"
proof -
  from gap_after_flat obtain seg T' pts where
    c: "createTerrainSegment ext0 1520 Tflat = (Inr seg, T')" and
    sx: "startX seg = 1520" and p: "points seg = Some pts" and len: "length pts = 30" and
    p0: "pts ! 0 = solid 1520 (5 / 2)" and tm: "terrainMeshes T' = [flat 1480 2, seg]"
    by blast
  have cov: "covers (flat 1480 2) (1520 - 1 / 1000)" "\<not> covers (flat 1480 2) 1520" "covers seg 1520"
    by (simp_all add: covers_def flat_def segmentWidth_def sx)
  from cov(1) have left: "getTerrainHeightAt T' (1520 - 1 / 1000) = Num 2"
    by (simp add: getTerrainHeightAt.simps tm heightInSegment_flat)
  from heightInSegment_at_start[OF p len, of "5 / 2"] p0 sx
  have "heightInSegment seg 1520 = Num (5 / 2)" by (simp add: solid_def)
  with cov(2,3) have right: "getTerrainHeightAt T' 1520 = Num (5 / 2)"
    by (simp add: getTerrainHeightAt.simps tm)
  have g: "1520 + 18 < gapStart 1520 (1520 + segmentWidth) (min 0.99 (max 0 (\<bar>1520\<bar> / 5000)))"
    by (simp add: gap_window_segment gapWidth_def)
  from p0 have "height (pts ! 0) = Some (5 / 2)" by (simp add: solid_def)
  with c p previousEndHeight_Tflat left right g show ?thesis by blast
qed

section \<open>Noise and the generator state\<close>

text \<open>
  C2. On a terrain object with seed 0, \<open>noise(0)\<close> is -1 before any draw; after one
  call of \<open>seededRandom\<close> the seed field is 49297 and \<open>noise(0)\<close> lies between -0.56 and
  -0.54: the value of \<open>noise\<close> at the same \<open>x\<close> changes with the draws made in between.
\<close>

theorem noise_changes_with_draws:
  "noise T0 0 = - 1 \<and>
   - 0.56 < noise (snd (seededRandom T0)) 0 \<and> noise (snd (seededRandom T0)) 0 < - 0.54"
proof -
  have n: "noise (snd (seededRandom T0)) 0 = (sin (51546 / 5) * 43758.5453 - of_int (- 43670)) * 2 - 1"
    unfolding noise_at_49297[OF seed_after_draw] floor_n1_at_49297 ..
  from n1_at_49297(1) have "- 0.56 < noise (snd (seededRandom T0)) 0"
    unfolding n by (simp; linarith)
  moreover from n1_at_49297(2) have "noise (snd (seededRandom T0)) 0 < - 0.54"
    unfolding n by (simp; linarith)
  ultimately show ?thesis using noise_T0 by simp
qed

end
